theory Spec2Isabelle
  imports Main
begin

section \<open>Data model\<close>

text \<open>
  The service keeps the plugin options in its field \<open>config_\<close>, here \<open>config\<close>.
  The settings object is kept as the list of its own entries in the order they were
  inserted; \<open>Object.entries\<close> and \<open>Object.values\<close> enumerate them in the order of
  \<open>object_entries\<close> below. A key occurs once in an object, which theorems about lookups
  assume as \<open>distinct (map fst (settings cfg))\<close>. An optional field is an \<open>option\<close>; an
  absent settings object and an absent language list behave as the empty one everywhere
  they are read, and are the empty list here. Numbers are integers.
\<close>

datatype I18nStrategy = SeparateIndex | FieldSuffix

record I18nConfig =
  strategy :: I18nStrategy
  languages :: "string list"
  defaultLanguage :: string

text \<open>
  A thrown value is an \<open>Error\<close> object with its message, or some other value; the
  bulk step tells the two apart with \<open>instanceof\<close>.
\<close>

datatype js_error = JsError string | Thrown string

text \<open>
  A document carries the two identity fields the diff reads, \<open>id\<close> and \<open>_id\<close>;
  the rest of it is opaque. Identities are strings, as \<open>deleteDocuments\<close> declares.
\<close>

record document =
  doc_id :: "string option"
  doc_alt_id :: "string option"
  doc_body :: string

record hit =
  hit_id :: string

record TransformOptions =
  to_i18n :: "I18nConfig option"
  to_language :: "string option"

type_synonym filters = "string \<rightharpoonup> string"

record DocumentFetcherOptions =
  fo_filters :: "filters option"
  fo_limit :: "int option"
  fo_offset :: "int option"
  fo_language :: "string option"

type_synonym DocumentFetcher = "DocumentFetcherOptions \<Rightarrow> js_error + document list"

type_synonym DefaultTransformer = "document \<Rightarrow> TransformOptions \<Rightarrow> js_error + document"

type_synonym DocumentTransformer =
  "document \<Rightarrow> DefaultTransformer option \<Rightarrow> TransformOptions \<Rightarrow> js_error + document"

record IndexConfig =
  ic_type :: "string option"
  ic_enabled :: "bool option"
  ic_fields :: "string list option"
  ic_fetcher :: "DocumentFetcher option"
  ic_transformer :: "DocumentTransformer option"

record MeilisearchPluginOptions =
  settings :: "(string \<times> IndexConfig) list"
  i18n :: "I18nConfig option"

record GraphQuery =
  gq_entity :: string
  gq_fields :: "string list"
  gq_take :: "int option"
  gq_skip :: "int option"
  gq_filters :: filters

record SyncDocumentsStepInput =
  si_indexKey :: string
  si_filters :: "filters option"
  si_limit :: "int option"
  si_offset :: "int option"
  si_language :: "string option"

record SyncDocumentsStepResult =
  documents :: "document list"
  added :: nat
  deleted :: nat

section \<open>Effects\<close>

text \<open>
  Every operation on an external collaborator is recorded as a \<open>call\<close>: a custom
  fetcher, the catalog query of the built-in fetcher, and the three operations of the
  search engine client, each with the physical index key it addresses. A run of the
  single-index workflow is recorded as well, with its input. A computation returns the
  calls it made, in order, and either the thrown value or its result.
\<close>

datatype call =
    FetcherCall string DocumentFetcherOptions
  | GraphCall GraphQuery
  | SearchCall string string "string option"
  | AddDocumentsCall string "document list"
  | DeleteDocumentsCall string "string list"
  | WorkflowRun SyncDocumentsStepInput

type_synonym 'a io = "call list \<times> (js_error + 'a)"

definition io_return :: "'a \<Rightarrow> 'a io" where
  "io_return x = ([], Inr x)"

definition io_call :: "call \<Rightarrow> js_error + 'a \<Rightarrow> 'a io" where
  "io_call c response = ([c], response)"

definition io_lift :: "js_error + 'a \<Rightarrow> 'a io" where
  "io_lift r = ([], r)"

text \<open>\<open>await m\<close> followed by the rest of the function: a throw in \<open>m\<close> ends it.\<close>

definition io_bind :: "'a io \<Rightarrow> ('a \<Rightarrow> 'b io) \<Rightarrow> 'b io" where
  "io_bind m f =
     (case m of
        (l, Inl e) \<Rightarrow> (l, Inl e)
      | (l, Inr x) \<Rightarrow> (case f x of (l', r) \<Rightarrow> (l @ l', r)))"

text \<open>\<open>try { m } catch (e) { h e }\<close>.\<close>

definition io_catch :: "'a io \<Rightarrow> (js_error \<Rightarrow> 'a io) \<Rightarrow> 'a io" where
  "io_catch m h =
     (case m of
        (l, Inl e) \<Rightarrow> (case h e of (l', r) \<Rightarrow> (l @ l', r))
      | (l, Inr x) \<Rightarrow> (l, Inr x))"

text \<open>
  The service holds the configuration and reaches the collaborators: the engine
  client, the catalog query service resolved from the container, and the default
  product transformer of \<open>utils/transformer\<close>. Each answers as a function of the
  arguments of the call.
\<close>

record MeiliSearchService =
  config :: MeilisearchPluginOptions
  client_search :: "string \<Rightarrow> string \<Rightarrow> string option \<Rightarrow> js_error + hit list"
  client_addDocuments :: "string \<Rightarrow> document list \<Rightarrow> js_error + unit"
  client_deleteDocuments :: "string \<Rightarrow> string list \<Rightarrow> js_error + unit"
  query_graph :: "GraphQuery \<Rightarrow> js_error + document list"
  transformProduct :: DefaultTransformer

section \<open>The search service\<close>

text \<open>A string is truthy unless it is absent or empty.\<close>

definition truthy :: "string option \<Rightarrow> bool" where
  "truthy s = (case s of None \<Rightarrow> False | Some v \<Rightarrow> v \<noteq> [])"

text \<open>\<open>a || b\<close> on optional strings.\<close>

definition js_or :: "string option \<Rightarrow> string option \<Rightarrow> string option" where
  "js_or a b = (if truthy a then a else b)"

text \<open>\<open>SearchUtils.indexTypes.PRODUCTS\<close> of the host framework.\<close>

definition indexTypes_PRODUCTS :: string where
  "indexTypes_PRODUCTS = ''products''"

definition getLanguageIndexKey ::
  "MeilisearchPluginOptions \<Rightarrow> string \<Rightarrow> string option \<Rightarrow> string" where
  "getLanguageIndexKey cfg baseKey language =
     (case i18n cfg of
        None \<Rightarrow> baseKey
      | Some i \<Rightarrow>
          if strategy i \<noteq> SeparateIndex \<or> \<not> truthy language then baseKey
          else baseKey @ ''_'' @ the language)"

text \<open>\<open>settings?.[indexKey]\<close>, on the own entries of the settings object.\<close>

definition indexConfig_of :: "MeilisearchPluginOptions \<Rightarrow> string \<Rightarrow> IndexConfig option" where
  "indexConfig_of cfg indexKey = map_of (settings cfg) indexKey"

text \<open>
  The order in which \<open>Object.entries\<close>, \<open>Object.values\<close> and \<open>for-in\<close> enumerate the
  own string keys of an object: first the keys that are array indices (the canonical
  decimal numeral of an integer from 0 to \<open>2^32 - 2\<close>, so without a leading zero), in
  ascending numeric order, then every other key in insertion order.
\<close>

definition digit_of :: "char \<Rightarrow> int option" where
  "digit_of c =
     map_of [(CHR ''0'', 0), (CHR ''1'', 1), (CHR ''2'', 2), (CHR ''3'', 3), (CHR ''4'', 4),
             (CHR ''5'', 5), (CHR ''6'', 6), (CHR ''7'', 7), (CHR ''8'', 8), (CHR ''9'', 9)] c"

fun decimal_of :: "string \<Rightarrow> int \<Rightarrow> int option" where
  "decimal_of [] n = Some n"
| "decimal_of (c # cs) n =
     (case digit_of c of None \<Rightarrow> None | Some d \<Rightarrow> decimal_of cs (10 * n + d))"

definition array_index :: "string \<Rightarrow> int option" where
  "array_index key =
     (if key = [] then None
      else if hd key = CHR ''0'' \<and> key \<noteq> ''0'' then None
      else (case decimal_of key 0 of
              None \<Rightarrow> None
            | Some n \<Rightarrow> if n < 4294967295 then Some n else None))"

definition object_entries :: "(string \<times> 'a) list \<Rightarrow> (string \<times> 'a) list" where
  "object_entries properties =
     sort_key (\<lambda>entry. the (array_index (fst entry)))
       (filter (\<lambda>entry. array_index (fst entry) \<noteq> None) properties) @
     filter (\<lambda>entry. array_index (fst entry) = None) properties"

text \<open>Adding to a \<open>Set\<close> keeps the first insertion of a value.\<close>

definition set_add :: "'a \<Rightarrow> 'a list \<Rightarrow> 'a list" where
  "set_add x xs = (if x \<in> set xs then xs else xs @ [x])"

definition getFieldsForType :: "MeilisearchPluginOptions \<Rightarrow> string \<Rightarrow> string list" where
  "getFieldsForType cfg ty =
     (let configs = filter (\<lambda>c. ic_type c = Some ty \<and> ic_enabled c \<noteq> Some False)
                      (map snd (object_entries (settings cfg)));
          fields = fold (\<lambda>c acc. case ic_fields c of
                                     None \<Rightarrow> acc
                                   | Some fs \<Rightarrow> fold set_add fs acc) configs []
      in if fields = [] then [''*''] else fields)"

text \<open>The query the built-in products fetcher sends to the catalog.\<close>

definition products_query :: "MeilisearchPluginOptions \<Rightarrow> DocumentFetcherOptions \<Rightarrow> GraphQuery" where
  "products_query cfg options =
     \<lparr> gq_entity = ''product'',
       gq_fields = getFieldsForType cfg indexTypes_PRODUCTS,
       gq_take = fo_limit options,
       gq_skip = fo_offset options,
       gq_filters = [''status'' \<mapsto> ''published''] ++
                    (case fo_filters options of None \<Rightarrow> Map.empty | Some f \<Rightarrow> f) \<rparr>"

text \<open>
  A resolved fetcher is the custom one of the configuration or the built-in one for
  products; \<open>run_fetcher\<close> invokes it and records the call.
\<close>

datatype resolved_fetcher = CustomFetcher DocumentFetcher | ProductsFetcher

definition getDocumentFetcher :: "MeiliSearchService \<Rightarrow> string \<Rightarrow> resolved_fetcher option" where
  "getDocumentFetcher svc indexKey =
     (case indexConfig_of (config svc) indexKey of
        None \<Rightarrow> None
      | Some indexConfig \<Rightarrow>
          if ic_enabled indexConfig = Some False then None
          else (case ic_fetcher indexConfig of
                  Some f \<Rightarrow> Some (CustomFetcher f)
                | None \<Rightarrow>
                    if ic_type indexConfig = Some indexTypes_PRODUCTS then Some ProductsFetcher
                    else None))"

definition run_fetcher ::
  "MeiliSearchService \<Rightarrow> string \<Rightarrow> resolved_fetcher \<Rightarrow> DocumentFetcherOptions \<Rightarrow> document list io" where
  "run_fetcher svc indexKey fetcher options =
     (case fetcher of
        CustomFetcher f \<Rightarrow> io_call (FetcherCall indexKey options) (f options)
      | ProductsFetcher \<Rightarrow>
          (let q = products_query (config svc) options
           in io_call (GraphCall q) (query_graph svc q)))"

definition fetchDocuments ::
  "MeiliSearchService \<Rightarrow> string \<Rightarrow> DocumentFetcherOptions \<Rightarrow> document list io" where
  "fetchDocuments svc indexKey options =
     (case getDocumentFetcher svc indexKey of
        None \<Rightarrow> io_return []
      | Some fetcher \<Rightarrow> run_fetcher svc indexKey fetcher options)"

text \<open>\<open>Promise.all\<close> over the documents: the results in order, or a thrown value.\<close>

fun map_all :: "('a \<Rightarrow> js_error + 'b) \<Rightarrow> 'a list \<Rightarrow> js_error + 'b list" where
  "map_all f [] = Inr []"
| "map_all f (x # xs) =
     (case f x of
        Inl e \<Rightarrow> Inl e
      | Inr y \<Rightarrow> (case map_all f xs of Inl e \<Rightarrow> Inl e | Inr ys \<Rightarrow> Inr (y # ys)))"

definition getTransformedDocuments ::
  "MeiliSearchService \<Rightarrow> string \<Rightarrow> document list \<Rightarrow> TransformOptions \<Rightarrow> js_error + document list" where
  "getTransformedDocuments svc indexKey docs options =
     (if docs = [] then Inr []
      else
        (let indexConfig = indexConfig_of (config svc) indexKey;
             ty = (case indexConfig of None \<Rightarrow> None | Some c \<Rightarrow> ic_type c)
         in case (case indexConfig of None \<Rightarrow> None | Some c \<Rightarrow> ic_transformer c) of
              Some t \<Rightarrow>
                if ty = Some indexTypes_PRODUCTS
                then map_all (\<lambda>doc. t doc (Some (transformProduct svc)) options) docs
                else map_all (\<lambda>doc. t doc None options) docs
            | None \<Rightarrow>
                if ty = Some indexTypes_PRODUCTS
                then map_all (\<lambda>doc. transformProduct svc doc options) docs
                else Inr docs))"

definition addDocuments ::
  "MeiliSearchService \<Rightarrow> string \<Rightarrow> document list \<Rightarrow> string option \<Rightarrow> unit io" where
  "addDocuments svc indexKey docs language =
     (let cfg = config svc;
          i18nOptions = \<lparr> to_i18n = i18n cfg, to_language = language \<rparr>;
          separate = (case i18n cfg of None \<Rightarrow> False | Some i \<Rightarrow> strategy i = SeparateIndex)
      in if separate
         then
           (let langIndexKey =
                  getLanguageIndexKey cfg indexKey
                    (js_or language (Some (defaultLanguage (the (i18n cfg)))))
            in io_bind (io_lift (getTransformedDocuments svc indexKey docs i18nOptions))
                 (\<lambda>transformedDocuments.
                    io_call (AddDocumentsCall langIndexKey transformedDocuments)
                      (client_addDocuments svc langIndexKey transformedDocuments)))
         else
           io_bind (io_lift (getTransformedDocuments svc indexKey docs i18nOptions))
             (\<lambda>transformedDocuments.
                io_call (AddDocumentsCall indexKey transformedDocuments)
                  (client_addDocuments svc indexKey transformedDocuments)))"

definition deleteDocuments ::
  "MeiliSearchService \<Rightarrow> string \<Rightarrow> string list \<Rightarrow> string option \<Rightarrow> unit io" where
  "deleteDocuments svc indexKey documentIds language =
     (let actualIndexKey = getLanguageIndexKey (config svc) indexKey language
      in io_call (DeleteDocumentsCall actualIndexKey documentIds)
           (client_deleteDocuments svc actualIndexKey documentIds))"

text \<open>
  \<open>search\<close> reads \<open>language\<close>, \<open>paginationOptions\<close>, \<open>filter\<close> and
  \<open>additionalOptions\<close> from its options; the sync steps set the filter and the language.
\<close>

definition search ::
  "MeiliSearchService \<Rightarrow> string \<Rightarrow> string \<Rightarrow> string option \<Rightarrow> string option \<Rightarrow> hit list io" where
  "search svc indexKey query filter_opt language =
     (let actualIndexKey = getLanguageIndexKey (config svc) indexKey language
      in io_call (SearchCall actualIndexKey query filter_opt)
           (client_search svc actualIndexKey query filter_opt))"

section \<open>Single-index sync\<close>

record IndexWithFetcher =
  iw_indexKey :: string
  iw_type :: "string option"
  iw_language :: "string option"

text \<open>\<open>documents.map((doc) => doc.id || doc._id).filter(Boolean)\<close>\<close>

definition documentIds_of :: "document list \<Rightarrow> string list" where
  "documentIds_of docs =
     map the (filter truthy (map (\<lambda>doc. js_or (doc_id doc) (doc_alt_id doc)) docs))"

fun join_with :: "string \<Rightarrow> string list \<Rightarrow> string" where
  "join_with sep [] = []"
| "join_with sep [x] = x"
| "join_with sep (x # y # ys) = x @ sep @ join_with sep (y # ys)"

text \<open>The filter of the membership probe: \<open>id IN ["a","b"]\<close>.\<close>

definition probe_filter :: "string list \<Rightarrow> string" where
  "probe_filter documentIds =
     ''id IN ['' @ join_with '','' (map (\<lambda>i. [CHR 0x22] @ i @ [CHR 0x22]) documentIds) @ '']''"

text \<open>
  The probe of both sync steps: no search when no document has an identity, and a
  failed search leaves the list of existing identities empty.
\<close>

definition existingDocumentIds_of ::
  "MeiliSearchService \<Rightarrow> string \<Rightarrow> string option \<Rightarrow> string list \<Rightarrow> string list io" where
  "existingDocumentIds_of svc indexKey language documentIds =
     (if documentIds \<noteq> []
      then io_catch
             (io_bind (search svc indexKey [] (Some (probe_filter documentIds)) language)
                (\<lambda>hits. io_return (map hit_id hits)))
             (\<lambda>_. io_return [])
      else io_return [])"

text \<open>\<open>existingDocumentIds.filter((id) => !documentIds.includes(id))\<close>\<close>

definition documentsToDelete_of :: "string list \<Rightarrow> string list \<Rightarrow> string list" where
  "documentsToDelete_of existingDocumentIds documentIds =
     filter (\<lambda>i. i \<notin> set documentIds) existingDocumentIds"

definition no_op :: SyncDocumentsStepResult where
  "no_op = \<lparr> documents = [], added = 0, deleted = 0 \<rparr>"

definition syncDocumentsStep ::
  "MeiliSearchService \<Rightarrow> SyncDocumentsStepInput \<Rightarrow> SyncDocumentsStepResult io" where
  "syncDocumentsStep svc inp =
     (let indexKey = si_indexKey inp; language = si_language inp
      in case indexConfig_of (config svc) indexKey of
           None \<Rightarrow> io_return no_op
         | Some indexConfig \<Rightarrow>
             if ic_enabled indexConfig = Some False then io_return no_op
             else
               io_bind (fetchDocuments svc indexKey
                          \<lparr> fo_filters = si_filters inp, fo_limit = si_limit inp,
                            fo_offset = si_offset inp, fo_language = language \<rparr>)
                 (\<lambda>docs.
                    if docs = [] then io_return no_op
                    else
                      (let documentIds = documentIds_of docs
                       in io_bind (existingDocumentIds_of svc indexKey language documentIds)
                            (\<lambda>existingDocumentIds.
                               (let documentsToDelete =
                                      documentsToDelete_of existingDocumentIds documentIds
                                in io_bind (addDocuments svc indexKey docs language)
                                     (\<lambda>_. io_bind
                                            (if documentsToDelete \<noteq> []
                                             then deleteDocuments svc indexKey documentsToDelete language
                                             else io_return ())
                                            (\<lambda>_. io_return
                                                   \<lparr> documents = docs,
                                                     added = length docs,
                                                     deleted = length documentsToDelete \<rparr>)))))))"

text \<open>The workflow runs the step on its input; a throw of the step fails the run.\<close>

definition syncDocumentsWorkflow ::
  "MeiliSearchService \<Rightarrow> SyncDocumentsStepInput \<Rightarrow> SyncDocumentsStepResult io" where
  "syncDocumentsWorkflow svc inp =
     io_bind (io_call (WorkflowRun inp) (Inr ())) (\<lambda>_. syncDocumentsStep svc inp)"

section \<open>Index registry\<close>

fun registry_loop ::
  "I18nConfig option \<Rightarrow> string option \<Rightarrow> (string \<times> IndexConfig) list \<Rightarrow>
   IndexWithFetcher list \<Rightarrow> IndexWithFetcher list" where
  "registry_loop i18n_opt language [] indexes = indexes"
| "registry_loop i18n_opt language ((indexKey, indexConfig) # rest) indexes =
     (if ic_enabled indexConfig = Some False
      then registry_loop i18n_opt language rest indexes
      else if ic_fetcher indexConfig = None
      then registry_loop i18n_opt language rest indexes
      else if (case i18n_opt of
                 None \<Rightarrow> False
               | Some i \<Rightarrow> strategy i = SeparateIndex \<and> length (languages i) > 0)
      then
        (let targetLanguages =
               (if truthy language then [the language] else languages (the i18n_opt))
         in registry_loop i18n_opt language rest
              (indexes @
               map (\<lambda>lang. \<lparr> iw_indexKey = indexKey, iw_type = ic_type indexConfig,
                              iw_language = Some lang \<rparr>) targetLanguages))
      else
        registry_loop i18n_opt language rest
          (indexes @
           [\<lparr> iw_indexKey = indexKey, iw_type = ic_type indexConfig,
              iw_language = language \<rparr>]))"

definition getIndexesWithFetchersStep ::
  "MeilisearchPluginOptions \<Rightarrow> string option \<Rightarrow> IndexWithFetcher list" where
  "getIndexesWithFetchersStep cfg language =
     registry_loop (i18n cfg) language (object_entries (settings cfg)) []"

definition filterIndexesStep ::
  "IndexWithFetcher list \<Rightarrow> string list option \<Rightarrow> IndexWithFetcher list" where
  "filterIndexesStep indexes indexKeys =
     (case indexKeys of
        Some ks \<Rightarrow> filter (\<lambda>index. iw_indexKey index \<in> set ks) indexes
      | None \<Rightarrow> indexes)"

section \<open>Bulk sync\<close>

text \<open>
  The result of one descriptor and of the whole step; the processing times, read from
  the clock, are left out.
\<close>

record IndexSyncResult =
  isr_indexKey :: string
  isr_language :: "string option"
  success :: bool
  isr_documents :: "document list"
  isr_added :: nat
  isr_deleted :: nat
  error :: "string option"

record BulkSyncDocumentsStepResult =
  results :: "IndexSyncResult list"
  totalProcessed :: nat
  totalSuccessful :: nat
  totalFailed :: nat
  totalDocuments :: nat
  totalAdded :: nat
  totalDeleted :: nat

record BulkSyncDocumentsStepInput =
  bi_indexes :: "IndexWithFetcher list"
  bi_filters :: "filters option"
  bi_limit :: "int option"
  bi_offset :: "int option"

definition index_result ::
  "IndexWithFetcher \<Rightarrow> document list \<Rightarrow> nat \<Rightarrow> nat \<Rightarrow> IndexSyncResult" where
  "index_result indexInfo docs a d =
     \<lparr> isr_indexKey = iw_indexKey indexInfo, isr_language = iw_language indexInfo,
       success = True, isr_documents = docs, isr_added = a, isr_deleted = d,
       error = None \<rparr>"

text \<open>The body of the \<open>try\<close> block of one descriptor.\<close>

definition index_try ::
  "MeiliSearchService \<Rightarrow> BulkSyncDocumentsStepInput \<Rightarrow> IndexWithFetcher \<Rightarrow> IndexSyncResult io" where
  "index_try svc inp indexInfo =
     (let indexKey = iw_indexKey indexInfo; language = iw_language indexInfo
      in case indexConfig_of (config svc) indexKey of
           None \<Rightarrow> io_return (index_result indexInfo [] 0 0)
         | Some indexConfig \<Rightarrow>
             if ic_enabled indexConfig = Some False
             then io_return (index_result indexInfo [] 0 0)
             else
               io_bind (fetchDocuments svc indexKey
                          \<lparr> fo_filters = bi_filters inp, fo_limit = bi_limit inp,
                            fo_offset = bi_offset inp, fo_language = language \<rparr>)
                 (\<lambda>docs.
                    if docs = [] then io_return (index_result indexInfo [] 0 0)
                    else
                      (let documentIds = documentIds_of docs
                       in io_bind (existingDocumentIds_of svc indexKey language documentIds)
                            (\<lambda>existingDocumentIds.
                               (let documentsToDelete =
                                      documentsToDelete_of existingDocumentIds documentIds
                                in io_bind (addDocuments svc indexKey docs language)
                                     (\<lambda>_. io_bind
                                            (if documentsToDelete \<noteq> []
                                             then deleteDocuments svc indexKey documentsToDelete language
                                             else io_return ())
                                            (\<lambda>_. io_return
                                                   (index_result indexInfo docs (length docs)
                                                      (length documentsToDelete)))))))))"

text \<open>\<open>error instanceof Error ? error.message : 'Unknown error'\<close>\<close>

definition errorMessage_of :: "js_error \<Rightarrow> string" where
  "errorMessage_of e = (case e of JsError m \<Rightarrow> m | Thrown _ \<Rightarrow> ''Unknown error'')"

definition index_catch :: "IndexWithFetcher \<Rightarrow> js_error \<Rightarrow> IndexSyncResult" where
  "index_catch indexInfo e =
     \<lparr> isr_indexKey = iw_indexKey indexInfo, isr_language = iw_language indexInfo,
       success = False, isr_documents = [], isr_added = 0, isr_deleted = 0,
       error = Some (errorMessage_of e) \<rparr>"

definition sync_index ::
  "MeiliSearchService \<Rightarrow> BulkSyncDocumentsStepInput \<Rightarrow> IndexWithFetcher \<Rightarrow> IndexSyncResult io" where
  "sync_index svc inp indexInfo =
     io_catch (index_try svc inp indexInfo) (\<lambda>e. io_return (index_catch indexInfo e))"

text \<open>
  \<open>Promise.all\<close> over computations: all of them run, and the first throw in the list
  rejects the whole. The calls of the descriptors are listed descriptor by descriptor;
  how they interleave in time is not modelled.
\<close>

fun io_all :: "'a io list \<Rightarrow> 'a list io" where
  "io_all [] = ([], Inr [])"
| "io_all ((l, r) # ms) =
     (case io_all ms of
        (l', rs) \<Rightarrow>
          (l @ l',
           case r of
             Inl e \<Rightarrow> Inl e
           | Inr x \<Rightarrow> (case rs of Inl e \<Rightarrow> Inl e | Inr xs \<Rightarrow> Inr (x # xs))))"

text \<open>The totals, accumulated over the results as the \<open>forEach\<close> does.\<close>

definition add_totals ::
  "IndexSyncResult \<Rightarrow> nat \<times> nat \<times> nat \<times> nat \<times> nat \<Rightarrow> nat \<times> nat \<times> nat \<times> nat \<times> nat" where
  "add_totals result acc =
     (case acc of
        (successful, failed, docs, a, d) \<Rightarrow>
          (if success result then successful + 1 else successful,
           if success result then failed else failed + 1,
           docs + length (isr_documents result),
           a + isr_added result,
           d + isr_deleted result))"

definition bulkSyncDocumentsStep ::
  "MeiliSearchService \<Rightarrow> BulkSyncDocumentsStepInput \<Rightarrow> BulkSyncDocumentsStepResult io" where
  "bulkSyncDocumentsStep svc inp =
     io_bind (io_all (map (sync_index svc inp) (bi_indexes inp)))
       (\<lambda>indexResults.
          case fold add_totals indexResults (0, 0, 0, 0, 0) of
            (successful, failed, docs, a, d) \<Rightarrow>
              io_return
                \<lparr> results = indexResults,
                  totalProcessed = length (bi_indexes inp),
                  totalSuccessful = successful,
                  totalFailed = failed,
                  totalDocuments = docs,
                  totalAdded = a,
                  totalDeleted = d \<rparr>)"

section \<open>Batch iteration driver\<close>

record IndexSyncJobData =
  jd_indexKey :: string
  jd_filters :: "filters option"
  jd_limit :: "int option"
  jd_offset :: "int option"
  jd_batchSize :: "int option"

text \<open>
  The job returns nothing; what it did is the calls it made and the totals of its last
  log line: it skipped, it ran one sync with the caller's limit, or it ran the batch loop.
\<close>

datatype job_outcome = Skipped | Single SyncDocumentsStepResult | Batched nat nat

text \<open>
  The \<open>while (hasMore)\<close> loop. It need not end (a batch size of zero never sees a
  short window), so the loop is a partial function and \<open>None\<close> stands for a run that
  never returns.
\<close>

partial_function (option) batch_loop ::
  "MeiliSearchService \<Rightarrow> string \<Rightarrow> filters option \<Rightarrow> int \<Rightarrow> int \<Rightarrow> nat \<Rightarrow> nat \<Rightarrow>
   call list \<Rightarrow> job_outcome io option" where
  "batch_loop svc indexKey flt batchSize currentOffset totalAdded_acc totalDeleted_acc calls =
     (let run = syncDocumentsWorkflow svc
                  \<lparr> si_indexKey = indexKey, si_filters = flt, si_limit = Some batchSize,
                    si_offset = Some currentOffset, si_language = None \<rparr>
      in case snd run of
           Inl e \<Rightarrow> Some (calls @ fst run, Inl e)
         | Inr result \<Rightarrow>
             if int (length (documents result)) < batchSize
             then Some (calls @ fst run,
                        Inr (Batched (totalAdded_acc + added result)
                                     (totalDeleted_acc + deleted result)))
             else batch_loop svc indexKey flt batchSize (currentOffset + batchSize)
                    (totalAdded_acc + added result) (totalDeleted_acc + deleted result)
                    (calls @ fst run))"

declare batch_loop.simps [code]

definition meilisearchIndexSyncJob ::
  "MeiliSearchService \<Rightarrow> IndexSyncJobData option \<Rightarrow> job_outcome io option" where
  "meilisearchIndexSyncJob svc data_opt =
     (case data_opt of
        None \<Rightarrow> Some (io_return Skipped)
      | Some d \<Rightarrow>
          if jd_indexKey d = [] then Some (io_return Skipped)
          else
            (let batchSize = (case jd_batchSize d of None \<Rightarrow> 100 | Some b \<Rightarrow> b)
             in if (case jd_limit d of None \<Rightarrow> False | Some l \<Rightarrow> l \<noteq> 0)
                then Some (io_bind
                             (syncDocumentsWorkflow svc
                                \<lparr> si_indexKey = jd_indexKey d, si_filters = jd_filters d,
                                  si_limit = jd_limit d, si_offset = jd_offset d,
                                  si_language = None \<rparr>)
                             (\<lambda>result. io_return (Single result)))
                else batch_loop svc (jd_indexKey d) (jd_filters d) batchSize
                       (case jd_offset d of None \<Rightarrow> 0 | Some off \<Rightarrow> off) 0 0 []))"

section \<open>Auxiliary definitions\<close>

text \<open>
  What the registry loop does with the entries it is given: it keeps the surviving
  ones, neither disabled nor without a fetcher, and pushes for each the descriptors of
  \<open>descriptors_of\<close>.
\<close>

definition surviving :: "(string \<times> IndexConfig) list \<Rightarrow> (string \<times> IndexConfig) list" where
  "surviving entries =
     filter (\<lambda>(indexKey, indexConfig).
               ic_enabled indexConfig \<noteq> Some False \<and> ic_fetcher indexConfig \<noteq> None) entries"

definition expands :: "I18nConfig option \<Rightarrow> bool" where
  "expands i18n_opt =
     (case i18n_opt of None \<Rightarrow> False | Some i \<Rightarrow> strategy i = SeparateIndex \<and> languages i \<noteq> [])"

definition descriptors_of ::
  "I18nConfig option \<Rightarrow> string option \<Rightarrow> string \<times> IndexConfig \<Rightarrow> IndexWithFetcher list" where
  "descriptors_of i18n_opt language entry =
     (if expands i18n_opt
      then map (\<lambda>lang. \<lparr> iw_indexKey = fst entry, iw_type = ic_type (snd entry),
                          iw_language = Some lang \<rparr>)
             (if truthy language then [the language] else languages (the i18n_opt))
      else [\<lparr> iw_indexKey = fst entry, iw_type = ic_type (snd entry),
               iw_language = language \<rparr>])"

text \<open>
  The registry as the specification words it: no descriptor for a disabled index or an
  index without a fetcher; under \<open>separate-index\<close> with a non-empty language list one
  descriptor per surviving index per language, or only the requested language when
  one was given; otherwise one descriptor per surviving index with the caller's
  language; in insertion order of the configuration, then language order.
\<close>

definition spec_descriptors ::
  "I18nConfig option \<Rightarrow> string option \<Rightarrow> string \<times> IndexConfig \<Rightarrow> IndexWithFetcher list" where
  "spec_descriptors i18n_opt language entry =
     (if expands i18n_opt
      then map (\<lambda>lang. \<lparr> iw_indexKey = fst entry, iw_type = ic_type (snd entry),
                          iw_language = Some lang \<rparr>)
             (case language of None \<Rightarrow> languages (the i18n_opt) | Some requested \<Rightarrow> [requested])
      else [\<lparr> iw_indexKey = fst entry, iw_type = ic_type (snd entry),
               iw_language = language \<rparr>])"

definition registry_spec :: "MeilisearchPluginOptions \<Rightarrow> string option \<Rightarrow> IndexWithFetcher list" where
  "registry_spec cfg language =
     concat (map (spec_descriptors (i18n cfg) language) (surviving (settings cfg)))"

text \<open>
  The same with the two amendments: the configuration is taken in the enumeration order
  of \<open>object_entries\<close>, and an empty string is no requested language.
\<close>

definition registry_spec_amended ::
  "MeilisearchPluginOptions \<Rightarrow> string option \<Rightarrow> IndexWithFetcher list" where
  "registry_spec_amended cfg language =
     concat (map (\<lambda>entry.
                    if expands (i18n cfg) \<and> language = Some []
                    then spec_descriptors (i18n cfg) None entry
                    else spec_descriptors (i18n cfg) language entry)
               (surviving (object_entries (settings cfg))))"

text \<open>The physical index a descriptor is probed in and deleted from.\<close>

definition physical_key :: "MeilisearchPluginOptions \<Rightarrow> IndexWithFetcher \<Rightarrow> string" where
  "physical_key cfg d = getLanguageIndexKey cfg (iw_indexKey d) (iw_language d)"

text \<open>The fetch window of a sync input, and the sync input of a descriptor in a bulk run.\<close>

definition fetch_options :: "SyncDocumentsStepInput \<Rightarrow> DocumentFetcherOptions" where
  "fetch_options inp =
     \<lparr> fo_filters = si_filters inp, fo_limit = si_limit inp, fo_offset = si_offset inp,
       fo_language = si_language inp \<rparr>"

definition sync_input_of :: "BulkSyncDocumentsStepInput \<Rightarrow> IndexWithFetcher \<Rightarrow> SyncDocumentsStepInput" where
  "sync_input_of binp d =
     \<lparr> si_indexKey = iw_indexKey d, si_filters = bi_filters binp, si_limit = bi_limit binp,
       si_offset = bi_offset binp, si_language = iw_language d \<rparr>"

definition probe_key :: "MeiliSearchService \<Rightarrow> SyncDocumentsStepInput \<Rightarrow> string" where
  "probe_key svc inp = getLanguageIndexKey (config svc) (si_indexKey inp) (si_language inp)"

definition is_enabled :: "MeilisearchPluginOptions \<Rightarrow> string \<Rightarrow> bool" where
  "is_enabled cfg indexKey =
     (case indexConfig_of cfg indexKey of None \<Rightarrow> False | Some c \<Rightarrow> ic_enabled c \<noteq> Some False)"

text \<open>
  The part both sync steps share once a non-empty window is fetched: probe, write,
  delete; its value is the size of the deletion set.
\<close>

definition reconcile ::
  "MeiliSearchService \<Rightarrow> string \<Rightarrow> string option \<Rightarrow> document list \<Rightarrow> nat io" where
  "reconcile svc indexKey language docs =
     io_bind (existingDocumentIds_of svc indexKey language (documentIds_of docs))
       (\<lambda>existingDocumentIds.
          io_bind (addDocuments svc indexKey docs language)
            (\<lambda>_. io_bind
                   (if documentsToDelete_of existingDocumentIds (documentIds_of docs) \<noteq> []
                    then deleteDocuments svc indexKey
                           (documentsToDelete_of existingDocumentIds (documentIds_of docs)) language
                    else io_return ())
                   (\<lambda>_. io_return
                          (length (documentsToDelete_of existingDocumentIds (documentIds_of docs))))))"

text \<open>The delete calls among the calls of a run.\<close>

fun delete_calls :: "call list \<Rightarrow> call list" where
  "delete_calls [] = []"
| "delete_calls (DeleteDocumentsCall k ids # cs) = DeleteDocumentsCall k ids # delete_calls cs"
| "delete_calls (_ # cs) = delete_calls cs"

text \<open>
  The catalog queries, the engine operations with the physical key each addresses, the
  workflow runs, their windows (limit and offset) and the written document lists among
  the calls of a run.
\<close>

fun graph_queries :: "call list \<Rightarrow> GraphQuery list" where
  "graph_queries [] = []"
| "graph_queries (GraphCall q # cs) = q # graph_queries cs"
| "graph_queries (_ # cs) = graph_queries cs"

fun engine_operations :: "call list \<Rightarrow> (string \<times> string) list" where
  "engine_operations [] = []"
| "engine_operations (SearchCall k q f # cs) = (''search'', k) # engine_operations cs"
| "engine_operations (AddDocumentsCall k ds # cs) = (''addDocuments'', k) # engine_operations cs"
| "engine_operations (DeleteDocumentsCall k ids # cs) =
     (''deleteDocuments'', k) # engine_operations cs"
| "engine_operations (_ # cs) = engine_operations cs"

fun workflow_runs :: "call list \<Rightarrow> SyncDocumentsStepInput list" where
  "workflow_runs [] = []"
| "workflow_runs (WorkflowRun inp # cs) = inp # workflow_runs cs"
| "workflow_runs (_ # cs) = workflow_runs cs"

definition run_windows :: "call list \<Rightarrow> (int option \<times> int option) list" where
  "run_windows calls = map (\<lambda>i. (si_limit i, si_offset i)) (workflow_runs calls)"

fun written :: "call list \<Rightarrow> document list list" where
  "written [] = []"
| "written (AddDocumentsCall k ds # cs) = ds # written cs"
| "written (_ # cs) = written cs"

text \<open>
  The input of one iteration of the batch loop.
\<close>

definition batch_input :: "string \<Rightarrow> filters option \<Rightarrow> int \<Rightarrow> int \<Rightarrow> SyncDocumentsStepInput" where
  "batch_input indexKey flt batchSize currentOffset =
     \<lparr> si_indexKey = indexKey, si_filters = flt, si_limit = Some batchSize,
       si_offset = Some currentOffset, si_language = None \<rparr>"

text \<open>
  The entry of one descriptor in the bulk result, from the outcome of the single-index step.
\<close>

definition entry_of ::
  "MeiliSearchService \<Rightarrow> BulkSyncDocumentsStepInput \<Rightarrow> IndexWithFetcher \<Rightarrow> IndexSyncResult" where
  "entry_of svc binp d =
     (case snd (syncDocumentsStep svc (sync_input_of binp d)) of
        Inl e \<Rightarrow> index_catch d e
      | Inr r \<Rightarrow> index_result d (documents r) (added r) (deleted r))"

section \<open>Example configurations\<close>

definition doc :: "string \<Rightarrow> document" where
  "doc i = \<lparr> doc_id = Some i, doc_alt_id = None, doc_body = [] \<rparr>"

text \<open>A fetcher over a fixed source: the window of \<open>limit\<close> documents from \<open>offset\<close>.\<close>

definition window_fetcher :: "document list \<Rightarrow> DocumentFetcher" where
  "window_fetcher source options =
     (let rest = drop (nat (case fo_offset options of None \<Rightarrow> 0 | Some off \<Rightarrow> off)) source
      in Inr (case fo_limit options of None \<Rightarrow> rest | Some l \<Rightarrow> take (nat l) rest))"

definition custom_index :: "DocumentFetcher \<Rightarrow> IndexConfig" where
  "custom_index f =
     \<lparr> ic_type = None, ic_enabled = None, ic_fields = None, ic_fetcher = Some f,
       ic_transformer = None \<rparr>"

text \<open>An engine whose operations succeed and whose search returns the given identities.\<close>

definition engine ::
  "MeilisearchPluginOptions \<Rightarrow> (string \<Rightarrow> string list) \<Rightarrow> MeiliSearchService" where
  "engine cfg stored =
     \<lparr> config = cfg,
       client_search = (\<lambda>k q f. Inr (map (\<lambda>i. \<lparr> hit_id = i \<rparr>) (stored k))),
       client_addDocuments = (\<lambda>k ds. Inr ()),
       client_deleteDocuments = (\<lambda>k ids. Inr ()),
       query_graph = (\<lambda>q. Inr []),
       transformProduct = (\<lambda>d opts. Inr d) \<rparr>"

definition no_hits :: "string \<Rightarrow> string list" where
  "no_hits k = []"

definition stale_hit :: "string \<Rightarrow> string list" where
  "stale_hit k = [''7'']"

definition articles_config :: MeilisearchPluginOptions where
  "articles_config =
     \<lparr> settings = [(''articles'', custom_index (window_fetcher [doc ''1'', doc ''2'', doc ''3''])),
                   (''drafts'', (custom_index (window_fetcher [doc ''9'']))
                                  \<lparr> ic_enabled := Some False \<rparr>)],
       i18n = None \<rparr>"

definition localized_config :: MeilisearchPluginOptions where
  "localized_config =
     \<lparr> settings = [(''articles'', custom_index (window_fetcher [doc ''1'', doc ''2'', doc ''3''])),
                   (''drafts'', (custom_index (window_fetcher [doc ''9'']))
                                  \<lparr> ic_enabled := Some False \<rparr>)],
       i18n = Some \<lparr> strategy = SeparateIndex, languages = [''en'', ''fr''],
                     defaultLanguage = ''en'' \<rparr> \<rparr>"

definition colliding_config :: MeilisearchPluginOptions where
  "colliding_config =
     \<lparr> settings = [(''products'', custom_index (window_fetcher [])),
                   (''products_en'', custom_index (window_fetcher []))],
       i18n = Some \<lparr> strategy = SeparateIndex, languages = [''en_US'', ''US''],
                     defaultLanguage = ''US'' \<rparr> \<rparr>"

definition numbered_config :: MeilisearchPluginOptions where
  "numbered_config =
     \<lparr> settings = [(''b'', custom_index (window_fetcher [])),
                   (''2'', custom_index (window_fetcher [])),
                   (''10'', custom_index (window_fetcher [])),
                   (''a'', custom_index (window_fetcher []))],
       i18n = None \<rparr>"

definition descriptor :: "string \<Rightarrow> string option \<Rightarrow> IndexWithFetcher" where
  "descriptor k lang = \<lparr> iw_indexKey = k, iw_type = None, iw_language = lang \<rparr>"

definition sync_of :: "string \<Rightarrow> SyncDocumentsStepInput" where
  "sync_of k = \<lparr> si_indexKey = k, si_filters = None, si_limit = None, si_offset = None,
                si_language = None \<rparr>"

definition query_status :: "GraphQuery \<Rightarrow> string option" where
  "query_status q = gq_filters q ''status''"

definition draft_filters :: filters where
  "draft_filters = [''status'' \<mapsto> ''draft'']"

definition products_config :: MeilisearchPluginOptions where
  "products_config =
     \<lparr> settings = [(''products'',
                    \<lparr> ic_type = Some ''products'', ic_enabled = None, ic_fields = None,
                      ic_fetcher = None, ic_transformer = None \<rparr>)],
       i18n = None \<rparr>"

definition catalog_config :: MeilisearchPluginOptions where
  "catalog_config =
     \<lparr> settings = [(''catalog'',
                    custom_index (window_fetcher
                      (map (\<lambda>n. doc (replicate (Suc n) (CHR ''x''))) [0..<250])))],
       i18n = None \<rparr>"

definition failing_config :: "string \<Rightarrow> MeilisearchPluginOptions" where
  "failing_config message =
     \<lparr> settings = [(''articles'', custom_index (window_fetcher [doc ''1'', doc ''2'', doc ''3''])),
                   (''broken'', custom_index (\<lambda>options. Inl (JsError message)))],
       i18n = None \<rparr>"

definition job_of :: "string \<Rightarrow> int option \<Rightarrow> int option \<Rightarrow> IndexSyncJobData" where
  "job_of k l bs =
     \<lparr> jd_indexKey = k, jd_filters = None, jd_limit = l, jd_offset = None, jd_batchSize = bs \<rparr>"

definition bulk_of :: "IndexWithFetcher list \<Rightarrow> BulkSyncDocumentsStepInput" where
  "bulk_of ds = \<lparr> bi_indexes = ds, bi_filters = None, bi_limit = None, bi_offset = None \<rparr>"

section \<open>Computations\<close>

lemma fst_io_bind:
  "fst (io_bind m f) = fst m @ (case snd m of Inl e \<Rightarrow> [] | Inr x \<Rightarrow> fst (f x))"
  by (cases m) (auto simp: io_bind_def split: sum.splits prod.splits)

lemma snd_io_bind:
  "snd (io_bind m f) = (case snd m of Inl e \<Rightarrow> Inl e | Inr x \<Rightarrow> snd (f x))"
  by (cases m) (auto simp: io_bind_def split: sum.splits prod.splits)

lemma fst_io_catch:
  "fst (io_catch m h) = fst m @ (case snd m of Inl e \<Rightarrow> fst (h e) | Inr x \<Rightarrow> [])"
  by (cases m) (auto simp: io_catch_def split: sum.splits prod.splits)

lemma snd_io_catch:
  "snd (io_catch m h) = (case snd m of Inl e \<Rightarrow> snd (h e) | Inr x \<Rightarrow> Inr x)"
  by (cases m) (auto simp: io_catch_def split: sum.splits prod.splits)

lemma io_simps:
  "fst (io_return x) = []" "snd (io_return x) = Inr x"
  "fst (io_call c r) = [c]" "snd (io_call c r) = r"
  "fst (io_lift r) = []" "snd (io_lift r) = r"
  by (simp_all add: io_return_def io_call_def io_lift_def)

lemma io_bind_return [simp]: "io_bind (io_return x) f = f x"
  by (simp add: io_bind_def io_return_def split: prod.splits)

lemma io_bind_assoc: "io_bind (io_bind m f) g = io_bind m (\<lambda>x. io_bind (f x) g)"
  by (cases m) (auto simp: io_bind_def split: sum.splits prod.splits)

section \<open>The sync steps in terms of the shared reconciliation\<close>

lemma syncDocumentsStep_reconcile:
  "syncDocumentsStep svc inp =
     (if \<not> is_enabled (config svc) (si_indexKey inp) then io_return no_op
      else io_bind (fetchDocuments svc (si_indexKey inp) (fetch_options inp))
             (\<lambda>docs. if docs = [] then io_return no_op
                      else io_bind (reconcile svc (si_indexKey inp) (si_language inp) docs)
                             (\<lambda>n. io_return \<lparr> documents = docs, added = length docs, deleted = n \<rparr>)))"
  by (auto simp: syncDocumentsStep_def is_enabled_def reconcile_def fetch_options_def Let_def
        io_bind_assoc split: option.splits intro!: arg_cong2 [where f = io_bind] ext)

lemma index_try_step:
  "index_try svc binp d =
     io_bind (syncDocumentsStep svc (sync_input_of binp d))
       (\<lambda>r. io_return (index_result d (documents r) (added r) (deleted r)))"
  by (auto simp: index_try_def syncDocumentsStep_def sync_input_of_def no_op_def Let_def
        io_bind_assoc split: option.splits intro!: arg_cong2 [where f = io_bind] ext)

lemma existing_snd:
  "snd (existingDocumentIds_of svc k lang D) =
     Inr (if D = [] then []
          else case client_search svc (getLanguageIndexKey (config svc) k lang) []
                      (Some (probe_filter D)) of
                 Inl _ \<Rightarrow> [] | Inr hits \<Rightarrow> map hit_id hits)"
  by (simp add: existingDocumentIds_of_def search_def Let_def snd_io_catch snd_io_bind io_simps
        split: sum.splits)

lemma existing_fst:
  "fst (existingDocumentIds_of svc k lang D) =
     (if D = [] then []
      else [SearchCall (getLanguageIndexKey (config svc) k lang) [] (Some (probe_filter D))])"
  by (simp add: existingDocumentIds_of_def search_def Let_def fst_io_catch fst_io_bind io_simps
        snd_io_bind split: sum.splits)

lemma delete_calls_append [simp]: "delete_calls (xs @ ys) = delete_calls xs @ delete_calls ys"
  by (induction xs rule: delete_calls.induct) auto

lemma fetch_no_delete [simp]: "delete_calls (fst (fetchDocuments svc k opts)) = []"
  by (simp add: fetchDocuments_def run_fetcher_def io_simps Let_def
        split: option.splits resolved_fetcher.splits)

lemma add_no_delete [simp]: "delete_calls (fst (addDocuments svc k docs lang)) = []"
  by (simp add: addDocuments_def fst_io_bind io_simps Let_def split: sum.splits)

lemma existing_no_delete [simp]: "delete_calls (fst (existingDocumentIds_of svc k lang D)) = []"
  by (simp add: existing_fst)

lemma reconcile_no_deletion:
  assumes "documentsToDelete_of
             (projr (snd (existingDocumentIds_of svc k lang (documentIds_of docs))))
             (documentIds_of docs) = []"
  shows "delete_calls (fst (reconcile svc k lang docs)) = []"
    and "snd (reconcile svc k lang docs) =
           (case snd (addDocuments svc k docs lang) of Inl e \<Rightarrow> Inl e | Inr _ \<Rightarrow> Inr 0)"
  using assms
  by (auto simp: reconcile_def fst_io_bind snd_io_bind io_simps existing_snd
        split: sum.splits)

section \<open>Facts about the examples\<close>

lemma engine_simps [simp]:
  "config (engine cfg stored) = cfg"
  "client_search (engine cfg stored) k q f = Inr (map (\<lambda>i. \<lparr> hit_id = i \<rparr>) (stored k))"
  "client_addDocuments (engine cfg stored) k ds = Inr ()"
  "client_deleteDocuments (engine cfg stored) k ids = Inr ()"
  "query_graph (engine cfg stored) gq = Inr []"
  "transformProduct (engine cfg stored) d opts = Inr d"
  by (simp_all add: engine_def)

lemma stored_simps [simp]: "no_hits k = []" "stale_hit k = [''7'']"
  by (simp_all add: no_hits_def stale_hit_def)

lemma custom_index_simps [simp]:
  "ic_type (custom_index f) = None"
  "ic_enabled (custom_index f) = None"
  "ic_fields (custom_index f) = None"
  "ic_fetcher (custom_index f) = Some f"
  "ic_transformer (custom_index f) = None"
  by (simp_all add: custom_index_def)

lemma articles_fetch:
  "snd (fetchDocuments (engine articles_config stored) ''articles'' (fetch_options (sync_of k))) =
     Inr [doc ''1'', doc ''2'', doc ''3'']"
  by (simp add: fetchDocuments_def getDocumentFetcher_def indexConfig_of_def run_fetcher_def
        io_call_def window_fetcher_def fetch_options_def articles_config_def sync_of_def)

lemma ids_of_docs [simp]: "documentIds_of (map doc ids) = filter (\<lambda>i. i \<noteq> []) ids"
  by (induction ids) (simp_all add: documentIds_of_def doc_def js_or_def truthy_def)

lemmas example_defs =
  localized_config_def colliding_config_def articles_config_def custom_index_def
  descriptor_def engine_def sync_of_def doc_def

section \<open>Registry\<close>

lemma registry_loop_concat:
  "registry_loop i18n_opt language entries indexes =
     indexes @ concat (map (descriptors_of i18n_opt language) (surviving entries))"
  by (induction i18n_opt language entries indexes rule: registry_loop.induct)
     (auto simp: surviving_def descriptors_of_def expands_def Let_def split: option.splits)

lemma descriptors_of_fields:
  assumes "d \<in> set (descriptors_of i18n_opt language (k, c))"
  shows "iw_indexKey d = k" and "iw_type d = ic_type c"
    and "expands i18n_opt \<and> \<not> truthy language \<Longrightarrow>
           \<exists>l \<in> set (languages (the i18n_opt)). iw_language d = Some l"
    and "\<not> (expands i18n_opt \<and> \<not> truthy language) \<Longrightarrow> iw_language d = language"
  using assms by (auto simp: descriptors_of_def truthy_def split: if_splits option.splits)

lemma set_object_entries [simp]: "set (object_entries properties) = set properties"
  by (auto simp: object_entries_def)

lemma object_entries_plain:
  assumes "\<forall>k \<in> set (map fst properties). array_index k = None"
  shows "object_entries properties = properties"
proof -
  from assms have "filter (\<lambda>entry. array_index (fst entry) \<noteq> None) properties = []"
    and "filter (\<lambda>entry. array_index (fst entry) = None) properties = properties"
    by (simp_all add: filter_empty_conv filter_id_conv)
  then show ?thesis
    by (simp add: object_entries_def)
qed

lemma set_surviving_entries:
  "set (surviving (object_entries properties)) = set (surviving properties)"
  by (simp add: surviving_def)

lemma registry_descriptors:
  "getIndexesWithFetchersStep cfg language =
     concat (map (descriptors_of (i18n cfg) language)
               (surviving (object_entries (settings cfg))))"
  by (simp add: getIndexesWithFetchersStep_def registry_loop_concat)

lemma descriptors_of_spec:
  "descriptors_of i18n_opt language entry =
     (if expands i18n_opt \<and> language = Some []
      then spec_descriptors i18n_opt None entry
      else spec_descriptors i18n_opt language entry)"
  by (cases language) (simp_all add: descriptors_of_def spec_descriptors_def truthy_def)

lemmas index_key_defs = object_entries_def array_index_def digit_of_def

lemma descriptor_origin:
  assumes "d \<in> set (getIndexesWithFetchersStep cfg language)"
  shows "\<exists>c. (iw_indexKey d, c) \<in> set (surviving (settings cfg)) \<and>
             d \<in> set (descriptors_of (i18n cfg) language (iw_indexKey d, c))"
proof -
  from assms obtain k c where kc: "(k, c) \<in> set (surviving (settings cfg))"
      "d \<in> set (descriptors_of (i18n cfg) language (k, c))"
    unfolding registry_descriptors by (auto simp: set_surviving_entries)
  then have "iw_indexKey d = k" using descriptors_of_fields(1) by blast
  with kc show ?thesis by blast
qed

lemma distinct_keys_same_config:
  assumes "distinct (map fst entries)" "(k, c1) \<in> set entries" "(k, c2) \<in> set entries"
  shows "c1 = c2"
  using assms by (meson eq_key_imp_eq_value)

lemma underscore_split:
  assumes eq: "k1 @ ''_'' @ l1 = k2 @ ''_'' @ l2"
    and l1: "CHR ''_'' \<notin> set l1" and l2: "CHR ''_'' \<notin> set l2"
  shows "k1 = k2 \<and> l1 = l2"
proof -
  have "rev (k1 @ ''_'' @ l1) = rev (k2 @ ''_'' @ l2)"
    using eq by simp
  then have r: "rev l1 @ CHR ''_'' # rev k1 = rev l2 @ CHR ''_'' # rev k2"
    by simp
  have t1: "takeWhile (\<lambda>c. c \<noteq> CHR ''_'') (rev l1 @ CHR ''_'' # rev k1) = rev l1"
    using l1 by (subst takeWhile_append2) auto
  have t2: "takeWhile (\<lambda>c. c \<noteq> CHR ''_'') (rev l2 @ CHR ''_'' # rev k2) = rev l2"
    using l2 by (subst takeWhile_append2) auto
  from r t1 t2 have "rev l1 = rev l2" by simp
  then have l: "l1 = l2" by simp
  with eq show ?thesis by simp
qed

section \<open>Single-index sync: outcomes\<close>

lemma disabled_not_enabled:
  assumes "distinct (map fst (settings cfg))" "(k, c) \<in> set (settings cfg)"
    "ic_enabled c = Some False"
  shows "\<not> is_enabled cfg k"
  using assms by (simp add: is_enabled_def indexConfig_of_def)

lemma fetch_ignores_search [simp]:
  "fetchDocuments (svc \<lparr> client_search := s \<rparr>) k opts = fetchDocuments svc k opts"
  by (simp add: fetchDocuments_def getDocumentFetcher_def run_fetcher_def Let_def
        split: option.splits resolved_fetcher.splits)

lemma transformed_ignores_search [simp]:
  "getTransformedDocuments (svc \<lparr> client_search := s \<rparr>) k docs opts =
     getTransformedDocuments svc k docs opts"
  by (simp add: getTransformedDocuments_def Let_def split: option.splits)

lemma add_ignores_search [simp]:
  "addDocuments (svc \<lparr> client_search := s \<rparr>) k docs lang = addDocuments svc k docs lang"
  by (simp add: addDocuments_def Let_def)

lemma reconcile_add_succeeded:
  assumes "snd (reconcile svc k lang docs) = Inr n"
  shows "snd (addDocuments svc k docs lang) = Inr ()"
  using assms
  by (auto simp: reconcile_def snd_io_bind existing_snd split: sum.splits)

lemma step_returns:
  assumes "is_enabled (config svc) (si_indexKey inp)"
    and "snd (fetchDocuments svc (si_indexKey inp) (fetch_options inp)) = Inr docs"
    and "docs \<noteq> []"
    and "snd (addDocuments svc (si_indexKey inp) docs (si_language inp)) = Inr ()"
    and "\<And>ids. snd (deleteDocuments svc (si_indexKey inp) ids (si_language inp)) = Inr ()"
  shows "snd (syncDocumentsStep svc inp) =
           Inr \<lparr> documents = docs, added = length docs,
                 deleted = length (documentsToDelete_of
                             (projr (snd (existingDocumentIds_of svc (si_indexKey inp)
                                            (si_language inp) (documentIds_of docs))))
                             (documentIds_of docs)) \<rparr>"
  using assms
  by (simp add: syncDocumentsStep_reconcile reconcile_def snd_io_bind io_simps existing_snd
        split: sum.splits)

section \<open>Calls of a run\<close>

lemma workflow_runs_append [simp]:
  "workflow_runs (xs @ ys) = workflow_runs xs @ workflow_runs ys"
  by (induction xs rule: workflow_runs.induct) auto

lemma written_append [simp]: "written (xs @ ys) = written xs @ written ys"
  by (induction xs rule: written.induct) auto

lemma fetch_calls [simp]:
  "workflow_runs (fst (fetchDocuments svc k opts)) = []"
  "written (fst (fetchDocuments svc k opts)) = []"
  by (simp_all add: fetchDocuments_def run_fetcher_def io_simps Let_def
        split: option.splits resolved_fetcher.splits)

lemma existing_calls [simp]:
  "workflow_runs (fst (existingDocumentIds_of svc k lang D)) = []"
  "written (fst (existingDocumentIds_of svc k lang D)) = []"
  by (simp_all add: existing_fst)

lemma delete_op_calls [simp]:
  "workflow_runs (fst (deleteDocuments svc k ids lang)) = []"
  "written (fst (deleteDocuments svc k ids lang)) = []"
  by (simp_all add: deleteDocuments_def io_simps Let_def)

lemma add_runs [simp]: "workflow_runs (fst (addDocuments svc k docs lang)) = []"
  by (simp add: addDocuments_def fst_io_bind io_simps Let_def split: sum.splits)

lemma map_all_length: "map_all f xs = Inr ys \<Longrightarrow> length ys = length xs"
  by (induction xs arbitrary: ys) (auto split: sum.splits)

lemma transformed_length:
  "getTransformedDocuments svc k docs opts = Inr ts \<Longrightarrow> length ts = length docs"
  by (auto simp: getTransformedDocuments_def Let_def map_all_length
        split: if_splits option.splits)

lemma add_written:
  assumes "snd (addDocuments svc k docs lang) = Inr ()"
  shows "map length (written (fst (addDocuments svc k docs lang))) = [length docs]"
  using assms
  by (auto simp: addDocuments_def fst_io_bind snd_io_bind io_simps Let_def transformed_length
        split: sum.splits if_splits)

lemma reconcile_calls:
  "workflow_runs (fst (reconcile svc k lang docs)) = []"
  by (simp add: reconcile_def fst_io_bind snd_io_bind io_simps existing_snd split: sum.splits)

lemma reconcile_written:
  assumes "snd (addDocuments svc k docs lang) = Inr ()"
  shows "map length (written (fst (reconcile svc k lang docs))) = [length docs]"
  using assms add_written [OF assms]
  by (simp add: reconcile_def fst_io_bind snd_io_bind io_simps existing_snd split: sum.splits)

lemma step_runs [simp]: "workflow_runs (fst (syncDocumentsStep svc inp)) = []"
  by (simp add: syncDocumentsStep_reconcile fst_io_bind io_simps reconcile_calls
        split: sum.splits)

lemma workflow_fst:
  "fst (syncDocumentsWorkflow svc inp) = WorkflowRun inp # fst (syncDocumentsStep svc inp)"
  by (simp add: syncDocumentsWorkflow_def fst_io_bind io_simps)

lemma workflow_snd [simp]:
  "snd (syncDocumentsWorkflow svc inp) = snd (syncDocumentsStep svc inp)"
  by (simp add: syncDocumentsWorkflow_def snd_io_bind io_simps)

lemma workflow_runs_workflow [simp]:
  "workflow_runs (fst (syncDocumentsWorkflow svc inp)) = [inp]"
  by (simp add: workflow_fst)

lemma not_enabled_fetch:
  "\<not> is_enabled (config svc) k \<Longrightarrow> fetchDocuments svc k opts = io_return []"
  by (auto simp: is_enabled_def fetchDocuments_def getDocumentFetcher_def split: option.splits)

lemma step_written:
  assumes "snd (fetchDocuments svc (si_indexKey inp) (fetch_options inp)) = Inr docs"
    and "docs \<noteq> []"
    and "snd (addDocuments svc (si_indexKey inp) docs (si_language inp)) = Inr ()"
  shows "map length (written (fst (syncDocumentsWorkflow svc inp))) = [length docs]"
proof -
  have "is_enabled (config svc) (si_indexKey inp)"
  proof (rule ccontr)
    assume "\<not> is_enabled (config svc) (si_indexKey inp)"
    then have "snd (fetchDocuments svc (si_indexKey inp) (fetch_options inp)) = Inr []"
      by (simp add: not_enabled_fetch io_simps)
    with assms(1,2) show False by simp
  qed
  with assms show ?thesis
    by (simp add: workflow_fst syncDocumentsStep_reconcile fst_io_bind io_simps
          reconcile_written split: sum.splits)
qed

section \<open>The batch loop, one iteration at a time\<close>

lemma batch_loop_more:
  assumes "snd (syncDocumentsStep svc (batch_input k flt bs off)) = Inr r"
    and "\<not> int (length (documents r)) < bs"
  shows "batch_loop svc k flt bs off ta td calls =
           batch_loop svc k flt bs (off + bs) (ta + added r) (td + deleted r)
             (calls @ fst (syncDocumentsWorkflow svc (batch_input k flt bs off)))"
  using assms
  by (subst batch_loop.simps) (simp add: batch_input_def Let_def)

lemma batch_loop_last:
  assumes "snd (syncDocumentsStep svc (batch_input k flt bs off)) = Inr r"
    and "int (length (documents r)) < bs"
  shows "batch_loop svc k flt bs off ta td calls =
           Some (calls @ fst (syncDocumentsWorkflow svc (batch_input k flt bs off)),
                 Inr (Batched (ta + added r) (td + deleted r)))"
  using assms
  by (subst batch_loop.simps) (simp add: batch_input_def Let_def)

lemma batch_loop_throws:
  assumes "snd (syncDocumentsStep svc (batch_input k flt bs off)) = Inl e"
  shows "batch_loop svc k flt bs off ta td calls =
           Some (calls @ fst (syncDocumentsWorkflow svc (batch_input k flt bs off)), Inl e)"
  using assms
  by (subst batch_loop.simps) (simp add: batch_input_def Let_def)

lemma batch_fetch_options:
  "fetch_options (batch_input k flt bs off) =
     \<lparr> fo_filters = flt, fo_limit = Some bs, fo_offset = Some off, fo_language = None \<rparr>"
  by (simp add: fetch_options_def batch_input_def)

lemma window_synced:
  assumes fetched: "snd (fetchDocuments svc k
                      \<lparr> fo_filters = flt, fo_limit = Some bs, fo_offset = Some off,
                        fo_language = None \<rparr>) = Inr docs"
    and nonempty: "docs \<noteq> []"
    and add_ok: "\<And>ds. snd (addDocuments svc k ds None) = Inr ()"
    and delete_ok: "\<And>ids. snd (deleteDocuments svc k ids None) = Inr ()"
  shows "\<exists>r. snd (syncDocumentsStep svc (batch_input k flt bs off)) = Inr r \<and>
             documents r = docs \<and> added r = length docs"
    and "map length (written (fst (syncDocumentsWorkflow svc (batch_input k flt bs off)))) =
           [length docs]"
proof -
  let ?inp = "batch_input k flt bs off"
  have key: "si_indexKey ?inp = k" and lang: "si_language ?inp = None"
    by (simp_all add: batch_input_def)
  have f: "snd (fetchDocuments svc (si_indexKey ?inp) (fetch_options ?inp)) = Inr docs"
    using fetched by (simp add: batch_fetch_options key)
  have en: "is_enabled (config svc) (si_indexKey ?inp)"
  proof (rule ccontr)
    assume "\<not> is_enabled (config svc) (si_indexKey ?inp)"
    then have "snd (fetchDocuments svc (si_indexKey ?inp) (fetch_options ?inp)) = Inr []"
      by (simp add: not_enabled_fetch io_simps)
    with f nonempty show False by simp
  qed
  have a: "snd (addDocuments svc (si_indexKey ?inp) docs (si_language ?inp)) = Inr ()"
    using add_ok by (simp add: key lang)
  have dl: "\<And>ids. snd (deleteDocuments svc (si_indexKey ?inp) ids (si_language ?inp)) = Inr ()"
    using delete_ok by (simp add: key lang)
  from step_returns [OF en f nonempty a dl]
  show "\<exists>r. snd (syncDocumentsStep svc ?inp) = Inr r \<and> documents r = docs \<and>
            added r = length docs"
    by simp
  from step_written [OF f nonempty a]
  show "map length (written (fst (syncDocumentsWorkflow svc ?inp))) = [length docs]" .
qed

section \<open>Bulk sync: entries and totals\<close>

lemma sync_index_snd: "snd (sync_index svc binp d) = Inr (entry_of svc binp d)"
  by (simp add: sync_index_def index_try_step snd_io_catch snd_io_bind io_simps entry_of_def
        split: sum.splits)

lemma io_all_Cons_snd:
  "snd (io_all (m # ms)) =
     (case snd m of
        Inl e \<Rightarrow> Inl e
      | Inr x \<Rightarrow> (case snd (io_all ms) of Inl e \<Rightarrow> Inl e | Inr xs \<Rightarrow> Inr (x # xs)))"
  by (cases m; cases "io_all ms") (simp split: sum.splits)

lemma io_all_snd:
  assumes "\<And>m. m \<in> set ms \<Longrightarrow> snd m = Inr (g m)"
  shows "snd (io_all ms) = Inr (map g ms)"
  using assms
proof (induction ms)
  case Nil
  then show ?case by simp
next
  case (Cons m ms)
  then have "snd m = Inr (g m)" and "snd (io_all ms) = Inr (map g ms)"
    by simp_all
  then show ?case
    by (simp add: io_all_Cons_snd)
qed

lemma io_all_sync_index:
  "snd (io_all (map (sync_index svc binp) ds)) = Inr (map (entry_of svc binp) ds)"
proof -
  have "snd (io_all (map (sync_index svc binp) ds)) =
          Inr (map (\<lambda>m. projr (snd m)) (map (sync_index svc binp) ds))"
    by (rule io_all_snd) (auto simp: sync_index_snd)
  then show ?thesis
    by (simp add: sync_index_snd comp_def)
qed

lemma fold_add_totals:
  "fold add_totals rs (s, f, n, a, d) =
     (s + length (filter success rs),
      f + length (filter (\<lambda>r. \<not> success r) rs),
      n + sum_list (map (\<lambda>r. length (isr_documents r)) rs),
      a + sum_list (map isr_added rs),
      d + sum_list (map isr_deleted rs))"
  by (induction rs arbitrary: s f n a d) (simp_all add: add_totals_def)

lemma bulk_snd:
  "snd (bulkSyncDocumentsStep svc binp) =
     Inr \<lparr> results = map (entry_of svc binp) (bi_indexes binp),
           totalProcessed = length (bi_indexes binp),
           totalSuccessful = length (filter success (map (entry_of svc binp) (bi_indexes binp))),
           totalFailed =
             length (filter (\<lambda>r. \<not> success r) (map (entry_of svc binp) (bi_indexes binp))),
           totalDocuments =
             sum_list (map (\<lambda>r. length (isr_documents r))
                         (map (entry_of svc binp) (bi_indexes binp))),
           totalAdded = sum_list (map isr_added (map (entry_of svc binp) (bi_indexes binp))),
           totalDeleted = sum_list (map isr_deleted (map (entry_of svc binp) (bi_indexes binp))) \<rparr>"
  by (simp add: bulkSyncDocumentsStep_def snd_io_bind io_all_sync_index fold_add_totals io_simps)

lemma entry_of_alone [simp]:
  "entry_of svc (binp \<lparr> bi_indexes := ds \<rparr>) d = entry_of svc binp d"
  by (simp add: entry_of_def sync_input_of_def)

lemma filter_one_failure:
  assumes "j < length xs" "\<not> P (xs ! j)" "\<And>i. i < length xs \<Longrightarrow> i \<noteq> j \<Longrightarrow> P (xs ! i)"
  shows "length (filter (\<lambda>x. \<not> P x) xs) = 1" and "length (filter P xs) = length xs - 1"
proof -
  have split: "xs = take j xs @ xs ! j # drop (Suc j) xs"
    using assms(1) by (simp add: id_take_nth_drop)
  have before: "\<forall>x \<in> set (take j xs). P x"
    using assms(1,3) by (auto simp: in_set_conv_nth)
  have after: "\<forall>x \<in> set (drop (Suc j) xs). P x"
    using assms(1,3) by (auto simp: in_set_conv_nth)
  have "filter (\<lambda>x. \<not> P x) xs =
          filter (\<lambda>x. \<not> P x) (take j xs) @ filter (\<lambda>x. \<not> P x) (xs ! j # drop (Suc j) xs)"
    by (subst split) (simp only: filter_append)
  with before after assms(2) show "length (filter (\<lambda>x. \<not> P x) xs) = 1"
    by (simp add: filter_empty_conv [THEN iffD2])
  moreover have "length (filter P xs) + length (filter (\<lambda>x. \<not> P x) xs) = length xs"
    by (rule sum_length_filter_compl)
  ultimately show "length (filter P xs) = length xs - 1"
    by simp
qed

lemma step_fetch_throws:
  assumes "snd (fetchDocuments svc (si_indexKey inp) (fetch_options inp)) = Inl e"
  shows "snd (syncDocumentsStep svc inp) = Inl e"
proof -
  have "is_enabled (config svc) (si_indexKey inp)"
  proof (rule ccontr)
    assume "\<not> is_enabled (config svc) (si_indexKey inp)"
    then have "snd (fetchDocuments svc (si_indexKey inp) (fetch_options inp)) = Inr []"
      by (simp add: not_enabled_fetch io_simps)
    with assms show False by simp
  qed
  with assms show ?thesis
    by (simp add: syncDocumentsStep_reconcile snd_io_bind)
qed

lemma step_succeeds:
  assumes "snd (fetchDocuments svc (si_indexKey inp) (fetch_options inp)) = Inr docs"
    and "docs = [] \<or> snd (addDocuments svc (si_indexKey inp) docs (si_language inp)) = Inr ()"
    and "\<And>ids. snd (deleteDocuments svc (si_indexKey inp) ids (si_language inp)) = Inr ()"
  shows "\<exists>r. snd (syncDocumentsStep svc inp) = Inr r"
  using assms
  by (auto simp: syncDocumentsStep_reconcile reconcile_def snd_io_bind io_simps existing_snd
        split: sum.splits)

lemma sync_input_of_fields [simp]:
  "si_indexKey (sync_input_of binp d) = iw_indexKey d"
  "si_language (sync_input_of binp d) = iw_language d"
  by (simp_all add: sync_input_of_def)

section \<open>Runs on the example engine\<close>

lemma engine_add_ok:
  assumes "indexConfig_of cfg k = Some (custom_index f)"
  shows "snd (addDocuments (engine cfg stored) k docs lang) = Inr ()"
  using assms
  by (simp add: addDocuments_def getTransformedDocuments_def snd_io_bind io_simps Let_def
        split: sum.splits option.splits)

lemma engine_delete_ok: "snd (deleteDocuments (engine cfg stored) k ids lang) = Inr ()"
  by (simp add: deleteDocuments_def io_simps Let_def)

lemma engine_fetch:
  assumes "indexConfig_of cfg k = Some (custom_index f)"
  shows "snd (fetchDocuments (engine cfg stored) k opts) = f opts"
  using assms
  by (simp add: fetchDocuments_def getDocumentFetcher_def run_fetcher_def io_simps)

lemma engine_step:
  assumes cfg: "indexConfig_of cfg (si_indexKey inp) = Some (custom_index f)"
    and fetched: "f (fetch_options inp) = Inr docs"
    and nonempty: "docs \<noteq> []"
  shows "snd (syncDocumentsStep (engine cfg no_hits) inp) =
           Inr \<lparr> documents = docs, added = length docs, deleted = 0 \<rparr>"
proof -
  let ?svc = "engine cfg no_hits"
  have en: "is_enabled (config ?svc) (si_indexKey inp)"
    using cfg by (simp add: is_enabled_def)
  have f: "snd (fetchDocuments ?svc (si_indexKey inp) (fetch_options inp)) = Inr docs"
    using engine_fetch [OF cfg] fetched by simp
  from step_returns [OF en f nonempty engine_add_ok [OF cfg] engine_delete_ok]
  show ?thesis
    by (simp add: existing_snd documentsToDelete_of_def)
qed

lemma articles_enabled: "is_enabled articles_config ''articles''"
  by (simp add: is_enabled_def indexConfig_of_def articles_config_def)

lemma articles_lookup:
  "indexConfig_of articles_config ''articles'' =
     Some (custom_index (window_fetcher [doc ''1'', doc ''2'', doc ''3'']))"
  by (simp add: indexConfig_of_def articles_config_def)

lemma ids_of_doc_list [simp]:
  "documentIds_of [] = []"
  "documentIds_of (doc i # ds) = (if i = [] then documentIds_of ds else i # documentIds_of ds)"
  by (simp_all add: documentIds_of_def doc_def js_or_def truthy_def)

lemma articles_first_run:
  "snd (syncDocumentsStep (engine articles_config no_hits) (sync_of ''articles'')) =
     Inr \<lparr> documents = map doc [''1'', ''2'', ''3''], added = 3, deleted = 0 \<rparr>"
proof -
  let ?svc = "engine articles_config no_hits"
  have "snd (syncDocumentsStep ?svc (sync_of ''articles'')) =
          Inr \<lparr> documents = map doc [''1'', ''2'', ''3''],
                added = length (map doc [''1'', ''2'', ''3'']),
                deleted = length (documentsToDelete_of
                            (projr (snd (existingDocumentIds_of ?svc
                                           (si_indexKey (sync_of ''articles''))
                                           (si_language (sync_of ''articles''))
                                           (documentIds_of (map doc [''1'', ''2'', ''3''])))))
                            (documentIds_of (map doc [''1'', ''2'', ''3'']))) \<rparr>"
  proof (rule step_returns)
    show "snd (fetchDocuments ?svc (si_indexKey (sync_of ''articles''))
                 (fetch_options (sync_of ''articles''))) = Inr (map doc [''1'', ''2'', ''3''])"
      using articles_fetch [of no_hits "''articles''"] by (simp add: sync_of_def)
    show "snd (addDocuments ?svc (si_indexKey (sync_of ''articles''))
                 (map doc [''1'', ''2'', ''3'']) (si_language (sync_of ''articles''))) = Inr ()"
      by (rule engine_add_ok) (simp add: indexConfig_of_def articles_config_def sync_of_def)
  qed (simp_all add: articles_enabled engine_delete_ok sync_of_def)
  then show ?thesis
    by (simp add: existing_snd documentsToDelete_of_def)
qed

lemma job_of_simps [simp]:
  "jd_indexKey (job_of k l bs) = k" "jd_filters (job_of k l bs) = None"
  "jd_limit (job_of k l bs) = l" "jd_offset (job_of k l bs) = None"
  "jd_batchSize (job_of k l bs) = bs"
  by (simp_all add: job_of_def)

lemma bulk_of_indexes: "bi_indexes (bulk_of ds) = ds"
  by (simp add: bulk_of_def)

lemma bulk_of_window:
  "fetch_options (sync_input_of (bulk_of ds) d) =
     \<lparr> fo_filters = None, fo_limit = None, fo_offset = None, fo_language = iw_language d \<rparr>"
  by (simp add: fetch_options_def sync_input_of_def bulk_of_def)

lemma descriptor_simps [simp]:
  "iw_indexKey (descriptor k lang) = k" "iw_type (descriptor k lang) = None"
  "iw_language (descriptor k lang) = lang"
  by (simp_all add: descriptor_def)

lemma failing_lookup:
  "indexConfig_of (failing_config message) ''articles'' =
     Some (custom_index (window_fetcher [doc ''1'', doc ''2'', doc ''3'']))"
  "indexConfig_of (failing_config message) ''broken'' =
     Some (custom_index (\<lambda>options. Inl (JsError message)))"
  by (simp_all add: indexConfig_of_def failing_config_def)

lemma failing_articles_step:
  "snd (syncDocumentsStep (engine (failing_config message) no_hits)
          (sync_input_of (bulk_of ds) (descriptor ''articles'' None))) =
     Inr \<lparr> documents = [doc ''1'', doc ''2'', doc ''3''], added = 3, deleted = 0 \<rparr>"
proof -
  have "snd (syncDocumentsStep (engine (failing_config message) no_hits)
               (sync_input_of (bulk_of ds) (descriptor ''articles'' None))) =
          Inr \<lparr> documents = [doc ''1'', doc ''2'', doc ''3''],
                added = length [doc ''1'', doc ''2'', doc ''3''], deleted = 0 \<rparr>"
    by (rule engine_step [where f = "window_fetcher [doc ''1'', doc ''2'', doc ''3'']"])
       (simp_all add: failing_lookup window_fetcher_def bulk_of_window)
  then show ?thesis by simp
qed

lemma failing_broken_fetch:
  "snd (fetchDocuments (engine (failing_config message) no_hits) ''broken'' opts) =
     Inl (JsError message)"
  by (simp add: engine_fetch [OF failing_lookup(2)])

section \<open>Claims\<close>

text \<open>
  C1. The claim: the membership probe, the write and the delete derive the same physical
  key from the same index key and language; in particular a sync without a language
  under \<open>separate-index\<close> probes and writes the same index. The code does otherwise:
  \<open>search\<close> and \<open>deleteDocuments\<close> pass the language as given to
  \<open>getLanguageIndexKey\<close>, \<open>addDocuments\<close> passes \<open>language || defaultLanguage\<close>.
  With the languages \<open>en\<close>, \<open>fr\<close>, the default \<open>en\<close> and no language, the step
  probes \<open>articles\<close>, writes \<open>articles_en\<close> and deletes from \<open>articles\<close>.
\<close>

theorem probe_and_write_address_different_indexes:
  "engine_operations
     (fst (syncDocumentsStep (engine localized_config stale_hit) (sync_of ''articles''))) =
   [(''search'', ''articles''), (''addDocuments'', ''articles_en''),
    (''deleteDocuments'', ''articles'')]"
  by (simp add: syncDocumentsStep_reconcile is_enabled_def indexConfig_of_def reconcile_def
        fetchDocuments_def getDocumentFetcher_def run_fetcher_def window_fetcher_def
        fetch_options_def fst_io_bind snd_io_bind io_simps existing_fst existing_snd
        addDocuments_def deleteDocuments_def getTransformedDocuments_def
        getLanguageIndexKey_def js_or_def truthy_def documentsToDelete_of_def
        documentIds_of_def Let_def localized_config_def sync_of_def doc_def)

text \<open>
  C2. In a single-index sync whose probe is honest (every hit returned for the probe of
  the fetched identities \<open>D\<close> has its identity in \<open>D\<close>), the deletion set is empty, no
  delete call is made, whatever the outcome of the run, and a result that is returned
  has \<open>deleted = 0\<close>. The same holds for the run of one descriptor in the bulk step,
  which always returns a result.
\<close>

theorem honest_probe_never_deletes:
  assumes honest:
    "\<And>docs hits.
       snd (fetchDocuments svc (si_indexKey inp) (fetch_options inp)) = Inr docs \<Longrightarrow>
       client_search svc (probe_key svc inp) [] (Some (probe_filter (documentIds_of docs))) = Inr hits \<Longrightarrow>
       \<forall>h \<in> set hits. hit_id h \<in> set (documentIds_of docs)"
    and d: "sync_input_of binp d = inp"
  shows "(case snd (fetchDocuments svc (si_indexKey inp) (fetch_options inp)) of
            Inl e \<Rightarrow> True
          | Inr docs \<Rightarrow>
              documentsToDelete_of
                (projr (snd (existingDocumentIds_of svc (si_indexKey inp) (si_language inp)
                               (documentIds_of docs))))
                (documentIds_of docs) = []) \<and>
         delete_calls (fst (syncDocumentsStep svc inp)) = [] \<and>
         (case snd (syncDocumentsStep svc inp) of Inl e \<Rightarrow> True | Inr r \<Rightarrow> deleted r = 0) \<and>
         delete_calls (fst (sync_index svc binp d)) = [] \<and>
         (case snd (sync_index svc binp d) of Inl e \<Rightarrow> False | Inr r \<Rightarrow> isr_deleted r = 0)"
proof -
  let ?k = "si_indexKey inp" and ?lang = "si_language inp"
  have empty: "documentsToDelete_of
                 (projr (snd (existingDocumentIds_of svc ?k ?lang (documentIds_of docs))))
                 (documentIds_of docs) = []"
    if "snd (fetchDocuments svc ?k (fetch_options inp)) = Inr docs" for docs
  proof (cases "client_search svc (probe_key svc inp) []
                  (Some (probe_filter (documentIds_of docs)))")
    case (Inl e)
    then show ?thesis
      by (simp add: existing_snd documentsToDelete_of_def probe_key_def)
  next
    case (Inr hits)
    with honest [OF that Inr] show ?thesis
      by (simp add: existing_snd documentsToDelete_of_def probe_key_def filter_empty_conv)
  qed
  have step_calls: "delete_calls (fst (syncDocumentsStep svc inp)) = []"
    using empty
    by (auto simp: syncDocumentsStep_reconcile fst_io_bind io_simps reconcile_no_deletion(1)
          split: sum.splits)
  have step_result:
    "(case snd (syncDocumentsStep svc inp) of Inl e \<Rightarrow> True | Inr r \<Rightarrow> deleted r = 0)"
    using empty
    by (auto simp: syncDocumentsStep_reconcile snd_io_bind io_simps reconcile_no_deletion(2)
          no_op_def split: sum.splits)
  have bulk_calls: "delete_calls (fst (sync_index svc binp d)) = []"
    using step_calls d
    by (auto simp: sync_index_def index_try_step fst_io_catch fst_io_bind snd_io_bind io_simps
          split: sum.splits)
  have bulk_result:
    "(case snd (sync_index svc binp d) of Inl e \<Rightarrow> False | Inr r \<Rightarrow> isr_deleted r = 0)"
    using step_result d
    by (auto simp: sync_index_def index_try_step snd_io_catch snd_io_bind io_simps
          index_result_def index_catch_def split: sum.splits)
  from empty step_calls step_result bulk_calls bulk_result show ?thesis
    by (auto split: sum.splits)
qed

theorem honest_probe_never_deletes_witness:
  "delete_calls (fst (syncDocumentsStep (engine articles_config (\<lambda>k. [''1'']))
                        (sync_of ''articles''))) = [] \<and>
   (case snd (syncDocumentsStep (engine articles_config (\<lambda>k. [''1''])) (sync_of ''articles'')) of
      Inl e \<Rightarrow> True
    | Inr r \<Rightarrow> deleted r = 0)"
proof -
  let ?svc = "engine articles_config (\<lambda>k. [''1''])"
  let ?binp = "\<lparr> bi_indexes = [], bi_filters = None, bi_limit = None, bi_offset = None \<rparr>"
  have honest: "\<forall>h \<in> set hits. hit_id h \<in> set (documentIds_of docs)"
    if "snd (fetchDocuments ?svc (si_indexKey (sync_of ''articles''))
               (fetch_options (sync_of ''articles''))) = Inr docs"
      and "client_search ?svc (probe_key ?svc (sync_of ''articles'')) []
             (Some (probe_filter (documentIds_of docs))) = Inr hits"
    for docs hits
  proof -
    from that(1) have docs: "docs = map doc [''1'', ''2'', ''3'']"
      by (simp add: sync_of_def [of "''articles''"] articles_fetch [unfolded sync_of_def])
    from that(2) have hits: "hits = [\<lparr> hit_id = ''1'' \<rparr>]"
      by auto
    show ?thesis
      unfolding docs hits ids_of_docs by simp
  qed
  have d: "sync_input_of ?binp (descriptor ''articles'' None) = sync_of ''articles''"
    by (simp add: sync_input_of_def descriptor_def sync_of_def)
  from honest_probe_never_deletes [of ?svc "sync_of ''articles''" ?binp, OF honest d]
  show ?thesis
    by simp
qed

text \<open>
  C3, as stated: the entry of the one descriptor whose fetch throws has a non-empty
  error string. The entry carries the message of the thrown \<open>Error\<close> as it is, so a
  fetcher that throws an \<open>Error\<close> with an empty message gives the empty string; the
  rest of the claim holds on this run.
\<close>

theorem failure_with_empty_message:
  "snd (bulkSyncDocumentsStep (engine (failing_config []) no_hits)
          (bulk_of [descriptor ''articles'' None, descriptor ''broken'' None])) =
     Inr \<lparr> results =
             [\<lparr> isr_indexKey = ''articles'', isr_language = None, success = True,
                 isr_documents = [doc ''1'', doc ''2'', doc ''3''], isr_added = 3,
                 isr_deleted = 0, error = None \<rparr>,
              \<lparr> isr_indexKey = ''broken'', isr_language = None, success = False,
                 isr_documents = [], isr_added = 0, isr_deleted = 0, error = Some [] \<rparr>],
           totalProcessed = 2, totalSuccessful = 1, totalFailed = 1, totalDocuments = 3,
           totalAdded = 3, totalDeleted = 0 \<rparr>"
proof -
  have broken: "snd (syncDocumentsStep (engine (failing_config []) no_hits)
                       (sync_input_of (bulk_of ds) (descriptor ''broken'' None))) =
                  Inl (JsError [])" for ds
    by (rule step_fetch_throws) (simp add: failing_broken_fetch)
  have articles: "entry_of (engine (failing_config []) no_hits) (bulk_of ds)
                    (descriptor ''articles'' None) =
                  \<lparr> isr_indexKey = ''articles'', isr_language = None, success = True,
                    isr_documents = [doc ''1'', doc ''2'', doc ''3''], isr_added = 3,
                    isr_deleted = 0, error = None \<rparr>" for ds
    by (simp add: entry_of_def failing_articles_step index_result_def)
  have failed: "entry_of (engine (failing_config []) no_hits) (bulk_of ds)
                  (descriptor ''broken'' None) =
                \<lparr> isr_indexKey = ''broken'', isr_language = None, success = False,
                  isr_documents = [], isr_added = 0, isr_deleted = 0, error = Some [] \<rparr>" for ds
    by (simp add: entry_of_def broken index_catch_def errorMessage_of_def)
  show ?thesis
    by (simp add: bulk_snd bulk_of_indexes articles failed)
qed

text \<open>
  C3, amended: when the fetch of exactly one descriptor, at position \<open>j\<close>, throws \<open>e\<close>
  and the fetch, write and delete of every other descriptor succeed, the bulk step
  returns with \<open>totalProcessed = N\<close>, \<open>totalFailed = 1\<close>, \<open>totalSuccessful = N - 1\<close>;
  the entry at \<open>j\<close> has \<open>success = False\<close>, no documents, \<open>added = 0\<close>, \<open>deleted = 0\<close>
  and as error the message of \<open>e\<close> (\<open>Unknown error\<close> when \<open>e\<close> is not an \<open>Error\<close>),
  which is non-empty unless \<open>e\<close> is an \<open>Error\<close> with an empty message; every other
  entry is successful and carries the documents and counts of the single-index sync of
  its descriptor, and is the entry of a bulk run on that descriptor alone.
\<close>

theorem one_failure_is_isolated:
  assumes j: "j < length (bi_indexes binp)"
    and fails:
      "snd (fetchDocuments svc (iw_indexKey (bi_indexes binp ! j))
              (fetch_options (sync_input_of binp (bi_indexes binp ! j)))) = Inl e"
    and others:
      "\<And>i. i < length (bi_indexes binp) \<Longrightarrow> i \<noteq> j \<Longrightarrow>
         (\<exists>docs. snd (fetchDocuments svc (iw_indexKey (bi_indexes binp ! i))
                        (fetch_options (sync_input_of binp (bi_indexes binp ! i)))) = Inr docs \<and>
                 (docs = [] \<or>
                  snd (addDocuments svc (iw_indexKey (bi_indexes binp ! i)) docs
                         (iw_language (bi_indexes binp ! i))) = Inr ())) \<and>
         (\<forall>ids. snd (deleteDocuments svc (iw_indexKey (bi_indexes binp ! i)) ids
                        (iw_language (bi_indexes binp ! i))) = Inr ())"
  shows "\<exists>res.
           snd (bulkSyncDocumentsStep svc binp) = Inr res \<and>
           totalProcessed res = length (bi_indexes binp) \<and>
           totalFailed res = 1 \<and>
           totalSuccessful res = length (bi_indexes binp) - 1 \<and>
           length (results res) = length (bi_indexes binp) \<and>
           results res ! j =
             \<lparr> isr_indexKey = iw_indexKey (bi_indexes binp ! j),
               isr_language = iw_language (bi_indexes binp ! j),
               success = False, isr_documents = [], isr_added = 0, isr_deleted = 0,
               error = Some (errorMessage_of e) \<rparr> \<and>
           (e \<noteq> JsError [] \<longrightarrow> errorMessage_of e \<noteq> []) \<and>
           (\<forall>i < length (bi_indexes binp). i \<noteq> j \<longrightarrow>
              success (results res ! i) \<and>
              snd (syncDocumentsStep svc (sync_input_of binp (bi_indexes binp ! i))) =
                Inr \<lparr> documents = isr_documents (results res ! i),
                      added = isr_added (results res ! i),
                      deleted = isr_deleted (results res ! i) \<rparr> \<and>
              snd (bulkSyncDocumentsStep svc (binp \<lparr> bi_indexes := [bi_indexes binp ! i] \<rparr>)) =
                Inr \<lparr> results = [results res ! i], totalProcessed = 1, totalSuccessful = 1,
                      totalFailed = 0,
                      totalDocuments = length (isr_documents (results res ! i)),
                      totalAdded = isr_added (results res ! i),
                      totalDeleted = isr_deleted (results res ! i) \<rparr>)"
proof -
  let ?ds = "bi_indexes binp"
  let ?rs = "map (entry_of svc binp) ?ds"
  have failed: "entry_of svc binp (?ds ! j) = index_catch (?ds ! j) e"
    using step_fetch_throws [of svc "sync_input_of binp (?ds ! j)" e] fails
    by (simp add: entry_of_def)
  have ok: "\<exists>r. snd (syncDocumentsStep svc (sync_input_of binp (?ds ! i))) = Inr r"
    if "i < length ?ds" "i \<noteq> j" for i
  proof -
    from others [OF that] obtain docs where
      "snd (fetchDocuments svc (iw_indexKey (?ds ! i))
              (fetch_options (sync_input_of binp (?ds ! i)))) = Inr docs"
      "docs = [] \<or> snd (addDocuments svc (iw_indexKey (?ds ! i)) docs
                          (iw_language (?ds ! i))) = Inr ()"
      "\<And>ids. snd (deleteDocuments svc (iw_indexKey (?ds ! i)) ids
                       (iw_language (?ds ! i))) = Inr ()"
      by blast
    then show ?thesis
      using step_succeeds [of svc "sync_input_of binp (?ds ! i)" docs] by simp
  qed
  have succeeded: "success (entry_of svc binp (?ds ! i))" if "i < length ?ds" "i \<noteq> j" for i
    using ok [OF that] by (auto simp: entry_of_def index_result_def)
  have step_of: "snd (syncDocumentsStep svc (sync_input_of binp (?ds ! i))) =
                   Inr \<lparr> documents = isr_documents (entry_of svc binp (?ds ! i)),
                         added = isr_added (entry_of svc binp (?ds ! i)),
                         deleted = isr_deleted (entry_of svc binp (?ds ! i)) \<rparr>"
    if "i < length ?ds" "i \<noteq> j" for i
    using ok [OF that] by (auto simp: entry_of_def index_result_def)
  have P: "\<not> success (?rs ! j)"
    using j failed by (simp add: index_catch_def)
  have Q: "success (?rs ! i)" if "i < length ?rs" "i \<noteq> j" for i
    using that succeeded by simp
  have len: "j < length ?rs"
    using j by simp
  note counts = filter_one_failure [of j ?rs success, OF len P Q]
  have message: "e \<noteq> JsError [] \<longrightarrow> errorMessage_of e \<noteq> []"
    by (cases e) (simp_all add: errorMessage_of_def)
  show ?thesis
    using j failed succeeded step_of counts message
    by (simp add: bulk_snd index_catch_def)
qed

theorem one_failure_is_isolated_witness:
  "\<exists>res.
     snd (bulkSyncDocumentsStep (engine (failing_config ''timeout'') no_hits)
            (bulk_of [descriptor ''articles'' None, descriptor ''broken'' None])) = Inr res \<and>
     totalProcessed res = 2 \<and> totalFailed res = 1 \<and> totalSuccessful res = 1 \<and>
     results res ! 1 =
       \<lparr> isr_indexKey = ''broken'', isr_language = None, success = False,
         isr_documents = [], isr_added = 0, isr_deleted = 0, error = Some ''timeout'' \<rparr> \<and>
     success (results res ! 0) \<and> isr_added (results res ! 0) = 3 \<and>
     isr_deleted (results res ! 0) = 0"
proof -
  let ?svc = "engine (failing_config ''timeout'') no_hits"
  let ?binp = "bulk_of [descriptor ''articles'' None, descriptor ''broken'' None]"
  have j: "1 < length (bi_indexes ?binp)"
    by (simp add: bulk_of_indexes)
  have fails: "snd (fetchDocuments ?svc (iw_indexKey (bi_indexes ?binp ! 1))
                      (fetch_options (sync_input_of ?binp (bi_indexes ?binp ! 1)))) =
                 Inl (JsError ''timeout'')"
    by (simp add: bulk_of_indexes failing_broken_fetch)
  have others:
    "(\<exists>docs. snd (fetchDocuments ?svc (iw_indexKey (bi_indexes ?binp ! i))
                    (fetch_options (sync_input_of ?binp (bi_indexes ?binp ! i)))) = Inr docs \<and>
             (docs = [] \<or>
              snd (addDocuments ?svc (iw_indexKey (bi_indexes ?binp ! i)) docs
                     (iw_language (bi_indexes ?binp ! i))) = Inr ())) \<and>
     (\<forall>ids. snd (deleteDocuments ?svc (iw_indexKey (bi_indexes ?binp ! i)) ids
                    (iw_language (bi_indexes ?binp ! i))) = Inr ())"
    if "i < length (bi_indexes ?binp)" "i \<noteq> 1" for i
  proof -
    from that have i: "i = 0" by (simp add: bulk_of_indexes)
    show ?thesis
      unfolding i
      by (simp add: bulk_of_indexes engine_fetch [OF failing_lookup(1)]
            engine_add_ok [OF failing_lookup(1)] engine_delete_ok window_fetcher_def
            bulk_of_window)
  qed
  from one_failure_is_isolated [of 1 ?binp ?svc "JsError ''timeout''", OF j fails others]
  obtain res where res: "snd (bulkSyncDocumentsStep ?svc ?binp) = Inr res"
    and totals: "totalProcessed res = length (bi_indexes ?binp)" "totalFailed res = 1"
      "totalSuccessful res = length (bi_indexes ?binp) - 1"
    and failed: "results res ! 1 =
       \<lparr> isr_indexKey = iw_indexKey (bi_indexes ?binp ! 1),
         isr_language = iw_language (bi_indexes ?binp ! 1),
         success = False, isr_documents = [], isr_added = 0, isr_deleted = 0,
         error = Some (errorMessage_of (JsError ''timeout'')) \<rparr>"
    and rest: "\<forall>i < length (bi_indexes ?binp). i \<noteq> 1 \<longrightarrow>
         success (results res ! i) \<and>
         snd (syncDocumentsStep ?svc (sync_input_of ?binp (bi_indexes ?binp ! i))) =
           Inr \<lparr> documents = isr_documents (results res ! i),
                 added = isr_added (results res ! i),
                 deleted = isr_deleted (results res ! i) \<rparr> \<and>
         snd (bulkSyncDocumentsStep ?svc (?binp \<lparr> bi_indexes := [bi_indexes ?binp ! i] \<rparr>)) =
           Inr \<lparr> results = [results res ! i], totalProcessed = 1, totalSuccessful = 1,
                 totalFailed = 0,
                 totalDocuments = length (isr_documents (results res ! i)),
                 totalAdded = isr_added (results res ! i),
                 totalDeleted = isr_deleted (results res ! i) \<rparr>"
    by blast
  from rest [THEN spec, of 0] have first: "success (results res ! 0)"
    "snd (syncDocumentsStep ?svc (sync_input_of ?binp (descriptor ''articles'' None))) =
       Inr \<lparr> documents = isr_documents (results res ! 0),
             added = isr_added (results res ! 0),
             deleted = isr_deleted (results res ! 0) \<rparr>"
    by (simp_all add: bulk_of_indexes)
  from first(2) have "isr_added (results res ! 0) = 3 \<and> isr_deleted (results res ! 0) = 0"
    by (simp add: failing_articles_step)
  with res totals failed first(1) show ?thesis
    by (simp add: bulk_of_indexes errorMessage_of_def)
qed

text \<open>
  C4. A source of 250 documents whose fetcher returns \<open>min limit remaining\<close> documents
  per window, synced from the start with batch size 100 (given or by default) and no
  limit, on an engine whose writes and deletes succeed: the driver returns, having run
  the single-index sync exactly three times, with limit 100 at the offsets 0, 100 and
  200, written 100, 100 and 50 documents, and counted \<open>totalAdded = 250\<close>. The stop rule
  is the second part: from any offset, a window whose sync returns fewer documents than
  the batch size, none included, ends the loop.
\<close>

theorem batch_driver_250:
  assumes key: "jd_indexKey d \<noteq> []"
    and no_limit: "jd_limit d = None"
    and from_start: "jd_offset d = None \<or> jd_offset d = Some 0"
    and batch_100: "jd_batchSize d = None \<or> jd_batchSize d = Some 100"
    and source:
      "\<And>l off. 0 \<le> l \<Longrightarrow> 0 \<le> off \<Longrightarrow>
         \<exists>docs. snd (fetchDocuments svc (jd_indexKey d)
                        \<lparr> fo_filters = jd_filters d, fo_limit = Some l, fo_offset = Some off,
                          fo_language = None \<rparr>) = Inr docs \<and>
                length docs = min (nat l) (250 - nat off)"
    and add_ok: "\<And>ds. snd (addDocuments svc (jd_indexKey d) ds None) = Inr ()"
    and delete_ok: "\<And>ids. snd (deleteDocuments svc (jd_indexKey d) ids None) = Inr ()"
  shows "(\<exists>calls n.
            meilisearchIndexSyncJob svc (Some d) = Some (calls, Inr (Batched 250 n)) \<and>
            run_windows calls =
              [(Some 100, Some 0), (Some 100, Some 100), (Some 100, Some 200)] \<and>
            map length (written calls) = [100, 100, 50]) \<and>
         (\<forall>off r ta td calls.
            snd (syncDocumentsStep svc (batch_input (jd_indexKey d) (jd_filters d) 100 off)) = Inr r \<longrightarrow>
            int (length (documents r)) < 100 \<longrightarrow>
            batch_loop svc (jd_indexKey d) (jd_filters d) 100 off ta td calls =
              Some (calls @
                    fst (syncDocumentsWorkflow svc
                           (batch_input (jd_indexKey d) (jd_filters d) 100 off)),
                    Inr (Batched (ta + added r) (td + deleted r))))"
proof -
  let ?k = "jd_indexKey d" and ?flt = "jd_filters d"
  let ?w = "\<lambda>off. syncDocumentsWorkflow svc (batch_input ?k ?flt 100 off)"
  from source [of 100 0] obtain docs0 where
    d0: "snd (fetchDocuments svc ?k \<lparr> fo_filters = ?flt, fo_limit = Some 100,
               fo_offset = Some 0, fo_language = None \<rparr>) = Inr docs0"
    and l0: "length docs0 = 100"
    by auto
  from source [of 100 100] obtain docs1 where
    d1: "snd (fetchDocuments svc ?k \<lparr> fo_filters = ?flt, fo_limit = Some 100,
               fo_offset = Some 100, fo_language = None \<rparr>) = Inr docs1"
    and l1: "length docs1 = 100"
    by auto
  from source [of 100 200] obtain docs2 where
    d2: "snd (fetchDocuments svc ?k \<lparr> fo_filters = ?flt, fo_limit = Some 100,
               fo_offset = Some 200, fo_language = None \<rparr>) = Inr docs2"
    and l2: "length docs2 = 50"
    by auto
  from l0 l1 l2 have ne: "docs0 \<noteq> []" "docs1 \<noteq> []" "docs2 \<noteq> []"
    by auto
  from window_synced(1) [OF d0 ne(1) add_ok delete_ok] obtain r0 where
    r0: "snd (syncDocumentsStep svc (batch_input ?k ?flt 100 0)) = Inr r0"
      "documents r0 = docs0" "added r0 = length docs0"
    by blast
  from window_synced(1) [OF d1 ne(2) add_ok delete_ok] obtain r1 where
    r1: "snd (syncDocumentsStep svc (batch_input ?k ?flt 100 100)) = Inr r1"
      "documents r1 = docs1" "added r1 = length docs1"
    by blast
  from window_synced(1) [OF d2 ne(3) add_ok delete_ok] obtain r2 where
    r2: "snd (syncDocumentsStep svc (batch_input ?k ?flt 100 200)) = Inr r2"
      "documents r2 = docs2" "added r2 = length docs2"
    by blast
  note w0 = window_synced(2) [OF d0 ne(1) add_ok delete_ok]
    and w1 = window_synced(2) [OF d1 ne(2) add_ok delete_ok]
    and w2 = window_synced(2) [OF d2 ne(3) add_ok delete_ok]
  have job: "meilisearchIndexSyncJob svc (Some d) = batch_loop svc ?k ?flt 100 0 0 0 []"
    using key no_limit from_start batch_100
    by (auto simp: meilisearchIndexSyncJob_def)
  have first: "batch_loop svc ?k ?flt 100 0 0 0 [] =
                 batch_loop svc ?k ?flt 100 100 (added r0) (deleted r0) (fst (?w 0))"
    using batch_loop_more [OF r0(1), of 0 0 "[]"] r0(2) l0 by simp
  have second: "batch_loop svc ?k ?flt 100 100 (added r0) (deleted r0) (fst (?w 0)) =
                  batch_loop svc ?k ?flt 100 200 (added r0 + added r1) (deleted r0 + deleted r1)
                    (fst (?w 0) @ fst (?w 100))"
    using batch_loop_more [OF r1(1), of "added r0" "deleted r0" "fst (?w 0)"] r1(2) l1 by simp
  have third: "batch_loop svc ?k ?flt 100 200 (added r0 + added r1) (deleted r0 + deleted r1)
                 (fst (?w 0) @ fst (?w 100)) =
               Some (fst (?w 0) @ fst (?w 100) @ fst (?w 200),
                     Inr (Batched (added r0 + added r1 + added r2)
                            (deleted r0 + deleted r1 + deleted r2)))"
    using batch_loop_last [OF r2(1), of "added r0 + added r1" "deleted r0 + deleted r1"
            "fst (?w 0) @ fst (?w 100)"] r2(2) l2
    by simp
  have total: "added r0 + added r1 + added r2 = 250"
    using r0(3) r1(3) r2(3) l0 l1 l2 by simp
  have runs: "run_windows (fst (?w 0) @ fst (?w 100) @ fst (?w 200)) =
              [(Some 100, Some 0), (Some 100, Some 100), (Some 100, Some 200)]"
    by (simp add: batch_input_def run_windows_def)
  have writes: "map length (written (fst (?w 0) @ fst (?w 100) @ fst (?w 200))) = [100, 100, 50]"
    using w0 w1 w2 l0 l1 l2 by simp
  from job first second third total runs writes
  have "\<exists>calls n.
          meilisearchIndexSyncJob svc (Some d) = Some (calls, Inr (Batched 250 n)) \<and>
          run_windows calls =
            [(Some 100, Some 0), (Some 100, Some 100), (Some 100, Some 200)] \<and>
          map length (written calls) = [100, 100, 50]"
    by simp
  then show ?thesis
    using batch_loop_last by blast
qed

theorem batch_driver_250_witness:
  "\<exists>calls n.
     meilisearchIndexSyncJob (engine catalog_config no_hits) (Some (job_of ''catalog'' None None)) =
       Some (calls, Inr (Batched 250 n)) \<and>
     run_windows calls =
       [(Some 100, Some 0), (Some 100, Some 100), (Some 100, Some 200)] \<and>
     map length (written calls) = [100, 100, 50]"
proof (rule batch_driver_250 [THEN conjunct1])
  fix l off :: int
  assume "0 \<le> l" "0 \<le> off"
  show "\<exists>docs. snd (fetchDocuments (engine catalog_config no_hits)
                      (jd_indexKey (job_of ''catalog'' None None))
                      \<lparr> fo_filters = jd_filters (job_of ''catalog'' None None),
                        fo_limit = Some l, fo_offset = Some off, fo_language = None \<rparr>) =
                 Inr docs \<and>
               length docs = min (nat l) (250 - nat off)"
    by (simp add: fetchDocuments_def getDocumentFetcher_def indexConfig_of_def run_fetcher_def
          io_call_def window_fetcher_def catalog_config_def min.commute)
next
  fix ds
  show "snd (addDocuments (engine catalog_config no_hits)
               (jd_indexKey (job_of ''catalog'' None None)) ds None) = Inr ()"
    by (rule engine_add_ok) (simp add: indexConfig_of_def catalog_config_def)
qed (simp_all add: engine_delete_ok)

text \<open>
  C5. A first run of the single-index sync returns \<open>r1\<close> over a window of \<open>N\<close>
  documents. The second run is the same sync on the same service (the same fetch
  results and write responses), whose search now reflects the writes: the probe of the
  fetched identities returns exactly those identities. The second run returns the same
  documents with \<open>added = N\<close> and \<open>deleted = 0\<close>.
\<close>

theorem second_run_adds_all_deletes_none:
  assumes first: "snd (syncDocumentsStep svc inp) = Inr r1"
    and probe:
      "documentIds_of (documents r1) \<noteq> [] \<Longrightarrow>
       \<exists>hits. search2 (probe_key svc inp) [] (Some (probe_filter (documentIds_of (documents r1)))) = Inr hits \<and>
              set (map hit_id hits) = set (documentIds_of (documents r1))"
  shows "added r1 = length (documents r1) \<and>
         snd (syncDocumentsStep (svc \<lparr> client_search := search2 \<rparr>) inp) =
           Inr \<lparr> documents = documents r1, added = length (documents r1), deleted = 0 \<rparr>"
proof (cases "is_enabled (config svc) (si_indexKey inp)")
  case False
  with first show ?thesis
    by (auto simp: syncDocumentsStep_reconcile io_simps no_op_def)
next
  case True
  let ?k = "si_indexKey inp" and ?lang = "si_language inp"
  let ?svc2 = "svc \<lparr> client_search := search2 \<rparr>"
  from first True obtain docs where
    fetched: "snd (fetchDocuments svc ?k (fetch_options inp)) = Inr docs"
    by (auto simp: syncDocumentsStep_reconcile snd_io_bind split: sum.splits)
  show ?thesis
  proof (cases "docs = []")
    case True
    with first fetched \<open>is_enabled (config svc) ?k\<close> show ?thesis
      by (auto simp: syncDocumentsStep_reconcile snd_io_bind io_simps no_op_def)
  next
    case False
    with first fetched True obtain n where
      rec: "snd (reconcile svc ?k ?lang docs) = Inr n"
      and r1: "r1 = \<lparr> documents = docs, added = length docs, deleted = n \<rparr>"
      by (auto simp: syncDocumentsStep_reconcile snd_io_bind io_simps split: sum.splits)
    have added: "snd (addDocuments svc ?k docs ?lang) = Inr ()"
      using reconcile_add_succeeded [OF rec] .
    have no_stale: "documentsToDelete_of
             (projr (snd (existingDocumentIds_of ?svc2 ?k ?lang (documentIds_of docs))))
             (documentIds_of docs) = []"
    proof (cases "documentIds_of docs = []")
      case True
      then show ?thesis by (simp add: existing_snd documentsToDelete_of_def)
    next
      case False
      with probe r1 obtain hits where
        "search2 (probe_key svc inp) [] (Some (probe_filter (documentIds_of docs))) = Inr hits"
        "set (map hit_id hits) = set (documentIds_of docs)"
        by auto
      then show ?thesis
        by (simp add: existing_snd documentsToDelete_of_def probe_key_def filter_empty_conv)
    qed
    have "snd (reconcile ?svc2 ?k ?lang docs) =
            (case snd (addDocuments ?svc2 ?k docs ?lang) of Inl e \<Rightarrow> Inl e | Inr _ \<Rightarrow> Inr 0)"
      using no_stale by (rule reconcile_no_deletion(2))
    with added have "snd (reconcile ?svc2 ?k ?lang docs) = Inr 0"
      by simp
    with fetched False True r1 show ?thesis
      by (simp add: syncDocumentsStep_reconcile [of ?svc2] snd_io_bind io_simps)
  qed
qed

theorem second_run_adds_all_deletes_none_witness:
  "snd (syncDocumentsStep
          ((engine articles_config no_hits)
             \<lparr> client_search := \<lambda>k q f. Inr (map (\<lambda>i. \<lparr> hit_id = i \<rparr>) [''1'', ''2'', ''3'']) \<rparr>)
          (sync_of ''articles'')) =
     Inr \<lparr> documents = map doc [''1'', ''2'', ''3''], added = 3, deleted = 0 \<rparr>"
  using second_run_adds_all_deletes_none
          [OF articles_first_run,
           of "\<lambda>k q f. Inr (map (\<lambda>i. \<lparr> hit_id = i \<rparr>) [''1'', ''2'', ''3''])"]
  by simp

text \<open>
  C6, as stated: any two distinct descriptors the registry produces under
  \<open>separate-index\<close> have different physical index keys, for arbitrary index keys and
  language codes. It fails when an underscore in a language code or an index key makes
  two concatenations meet: \<open>products\<close> with \<open>en_US\<close> and \<open>products_en\<close> with \<open>US\<close>.
\<close>

theorem physical_keys_collide:
  "descriptor ''products'' (Some ''en_US'') \<in> set (getIndexesWithFetchersStep colliding_config None) \<and>
   descriptor ''products_en'' (Some ''US'') \<in> set (getIndexesWithFetchersStep colliding_config None) \<and>
   descriptor ''products'' (Some ''en_US'') \<noteq> descriptor ''products_en'' (Some ''US'') \<and>
   physical_key colliding_config (descriptor ''products'' (Some ''en_US'')) =
   physical_key colliding_config (descriptor ''products_en'' (Some ''US''))"
  by (simp add: getIndexesWithFetchersStep_def physical_key_def getLanguageIndexKey_def
        truthy_def example_defs index_key_defs)

text \<open>
  C6, amended: under \<open>separate-index\<close>, when every configured language code is
  non-empty and free of underscores, any two distinct descriptors the registry produces
  have different physical index keys.
\<close>

theorem physical_keys_disjoint:
  assumes sep: "i18n cfg = Some i" "strategy i = SeparateIndex"
    and keys: "distinct (map fst (settings cfg))"
    and langs: "\<forall>l \<in> set (languages i). l \<noteq> [] \<and> CHR ''_'' \<notin> set l"
    and d1: "d1 \<in> set (getIndexesWithFetchersStep cfg language)"
    and d2: "d2 \<in> set (getIndexesWithFetchersStep cfg language)"
    and neq: "d1 \<noteq> d2"
  shows "physical_key cfg d1 \<noteq> physical_key cfg d2"
proof
  assume same: "physical_key cfg d1 = physical_key cfg d2"
  from d1 obtain c1 where c1: "(iw_indexKey d1, c1) \<in> set (surviving (settings cfg))"
      "d1 \<in> set (descriptors_of (i18n cfg) language (iw_indexKey d1, c1))"
    using descriptor_origin by blast
  from d2 obtain c2 where c2: "(iw_indexKey d2, c2) \<in> set (surviving (settings cfg))"
      "d2 \<in> set (descriptors_of (i18n cfg) language (iw_indexKey d2, c2))"
    using descriptor_origin by blast
  note f1 = descriptors_of_fields [OF c1(2)] and f2 = descriptors_of_fields [OF c2(2)]
  have key_lang: "iw_indexKey d1 = iw_indexKey d2 \<and> iw_language d1 = iw_language d2"
  proof (cases "expands (i18n cfg) \<and> \<not> truthy language")
    case True
    then have "\<exists>l \<in> set (languages i). iw_language d1 = Some l"
      and "\<exists>l \<in> set (languages i). iw_language d2 = Some l"
      using f1(3) f2(3) sep by auto
    then obtain l1 l2 where l: "iw_language d1 = Some l1" "l1 \<in> set (languages i)"
        "iw_language d2 = Some l2" "l2 \<in> set (languages i)"
      by blast
    with langs have ok: "l1 \<noteq> []" "CHR ''_'' \<notin> set l1" "l2 \<noteq> []" "CHR ''_'' \<notin> set l2"
      by auto
    from same l ok sep
    have "iw_indexKey d1 @ ''_'' @ l1 = iw_indexKey d2 @ ''_'' @ l2"
      by (simp add: physical_key_def getLanguageIndexKey_def truthy_def)
    with ok have "iw_indexKey d1 = iw_indexKey d2 \<and> l1 = l2"
      using underscore_split by blast
    with l show ?thesis by simp
  next
    case False
    then have same_lang: "iw_language d1 = iw_language d2"
      using f1(4) f2(4) by simp
    with same sep have "iw_indexKey d1 = iw_indexKey d2"
      by (auto simp: physical_key_def getLanguageIndexKey_def split: if_splits)
    with same_lang show ?thesis by simp
  qed
  from c1(1) c2(1) have "(iw_indexKey d1, c1) \<in> set (settings cfg)"
    and "(iw_indexKey d2, c2) \<in> set (settings cfg)"
    by (simp_all add: surviving_def)
  with key_lang keys have "c1 = c2"
    using distinct_keys_same_config by metis
  with key_lang f1(2) f2(2) have "d1 = d2" by simp
  with neq show False by contradiction
qed

theorem physical_keys_disjoint_witness:
  "physical_key localized_config (descriptor ''articles'' (Some ''en'')) \<noteq>
   physical_key localized_config (descriptor ''articles'' (Some ''fr''))"
proof (rule physical_keys_disjoint [where language = None])
  show "i18n localized_config = Some \<lparr> strategy = SeparateIndex, languages = [''en'', ''fr''],
                     defaultLanguage = ''en'' \<rparr>"
    by (simp add: localized_config_def)
qed (simp_all add: getIndexesWithFetchersStep_def truthy_def example_defs index_key_defs)

text \<open>
  C7. For an index configured with \<open>enabled: false\<close>, the registry produces no
  descriptor with its key, and a single-index sync of that key returns
  \<open>{documents: [], added: 0, deleted: 0}\<close> with no call made: no fetch, no probe, no
  write, no delete.
\<close>

theorem disabled_index_is_no_op:
  assumes keys: "distinct (map fst (settings (config svc)))"
    and entry: "(k, c) \<in> set (settings (config svc))"
    and disabled: "ic_enabled c = Some False"
    and inp: "si_indexKey inp = k"
  shows "k \<notin> set (map iw_indexKey (getIndexesWithFetchersStep (config svc) language)) \<and>
         syncDocumentsStep svc inp = ([], Inr \<lparr> documents = [], added = 0, deleted = 0 \<rparr>)"
proof
  show "k \<notin> set (map iw_indexKey (getIndexesWithFetchersStep (config svc) language))"
  proof
    assume "k \<in> set (map iw_indexKey (getIndexesWithFetchersStep (config svc) language))"
    then obtain d where d: "d \<in> set (getIndexesWithFetchersStep (config svc) language)"
        "iw_indexKey d = k"
      by auto
    then obtain c' where c': "(k, c') \<in> set (surviving (settings (config svc)))"
      using descriptor_origin by blast
    then have "(k, c') \<in> set (settings (config svc))" and en: "ic_enabled c' \<noteq> Some False"
      by (simp_all add: surviving_def)
    with keys entry have "c' = c"
      using distinct_keys_same_config by metis
    with en disabled show False by simp
  qed
  show "syncDocumentsStep svc inp = ([], Inr \<lparr> documents = [], added = 0, deleted = 0 \<rparr>)"
    using disabled_not_enabled [OF keys entry disabled] inp
    by (simp add: syncDocumentsStep_reconcile io_return_def no_op_def)
qed

theorem disabled_index_is_no_op_witness:
  "''drafts'' \<notin> set (map iw_indexKey (getIndexesWithFetchersStep articles_config None)) \<and>
   syncDocumentsStep (engine articles_config (\<lambda>k. [''9''])) (sync_of ''drafts'') =
     ([], Inr \<lparr> documents = [], added = 0, deleted = 0 \<rparr>)"
  using disabled_index_is_no_op
          [of "engine articles_config (\<lambda>k. [''9''])" "''drafts''"
              "(custom_index (window_fetcher [doc ''9''])) \<lparr> ic_enabled := Some False \<rparr>"
              "sync_of ''drafts''" None]
  by (simp add: articles_config_def sync_of_def)

text \<open>
  C8, as stated: the registry lists the descriptors in insertion order of the
  configuration, and expands to only the requested language when one was given. The
  loop runs over \<open>Object.entries\<close>, which puts integer-like keys first, in numeric
  order: indexes inserted as \<open>b\<close>, \<open>2\<close>, \<open>10\<close>, \<open>a\<close> come out as \<open>2\<close>, \<open>10\<close>, \<open>b\<close>,
  \<open>a\<close>. And the requested language is put to a truth test: given the empty string,
  the loop expands to every configured language.
\<close>

theorem registry_order_and_empty_language:
  "map iw_indexKey (getIndexesWithFetchersStep numbered_config None) =
     [''2'', ''10'', ''b'', ''a''] \<and>
   map iw_indexKey (registry_spec numbered_config None) = [''b'', ''2'', ''10'', ''a''] \<and>
   getIndexesWithFetchersStep localized_config (Some []) =
     [descriptor ''articles'' (Some ''en''), descriptor ''articles'' (Some ''fr'')] \<and>
   registry_spec localized_config (Some []) = [descriptor ''articles'' (Some [])]"
  by (simp add: getIndexesWithFetchersStep_def registry_spec_def spec_descriptors_def
        surviving_def expands_def truthy_def numbered_config_def localized_config_def
        custom_index_def descriptor_def index_key_defs)

text \<open>
  C8, amended: for every configuration and optional target language the registry
  produces exactly the descriptors of the specification, none for a disabled index,
  none for an index without a fetcher, under \<open>separate-index\<close> with a non-empty
  language list one per surviving index per language, or only the requested language
  when a non-empty one was given, otherwise one per surviving index with the caller's
  language unchanged; in the enumeration order of \<open>Object.entries\<close> over the
  configuration (integer-like keys first by numeric value, then the other keys in
  insertion order), then language order. When no index key is integer-like and the
  requested language is not the empty string, this is the registry of the claim as
  stated, in insertion order.
\<close>

theorem registry_matches_amended_spec:
  "getIndexesWithFetchersStep cfg language = registry_spec_amended cfg language \<and>
   ((\<forall>k \<in> set (map fst (settings cfg)). array_index k = None) \<longrightarrow>
    language \<noteq> Some [] \<longrightarrow>
    getIndexesWithFetchersStep cfg language = registry_spec cfg language)"
proof -
  have "descriptors_of (i18n cfg) language =
          (\<lambda>entry. if expands (i18n cfg) \<and> language = Some []
                   then spec_descriptors (i18n cfg) None entry
                   else spec_descriptors (i18n cfg) language entry)"
    by (rule ext) (rule descriptors_of_spec)
  then have amended:
    "getIndexesWithFetchersStep cfg language = registry_spec_amended cfg language"
    by (simp only: registry_descriptors registry_spec_amended_def)
  have "registry_spec_amended cfg language = registry_spec cfg language"
    if "\<forall>k \<in> set (map fst (settings cfg)). array_index k = None" "language \<noteq> Some []"
    using that
    by (simp add: registry_spec_amended_def registry_spec_def object_entries_plain)
  with amended show ?thesis
    by simp
qed

theorem registry_matches_amended_spec_witness:
  "getIndexesWithFetchersStep localized_config None =
     [descriptor ''articles'' (Some ''en''), descriptor ''articles'' (Some ''fr'')] \<and>
   getIndexesWithFetchersStep localized_config None = registry_spec localized_config None"
proof -
  have plain: "\<forall>k \<in> set (map fst (settings localized_config)). array_index k = None"
    by (simp add: localized_config_def array_index_def digit_of_def)
  have given: "(None :: string option) \<noteq> Some []"
    by simp
  from registry_matches_amended_spec [of localized_config None] plain given
  have "getIndexesWithFetchersStep localized_config None = registry_spec localized_config None"
    by blast
  then show ?thesis
    by (simp add: registry_spec_def spec_descriptors_def surviving_def expands_def
          localized_config_def custom_index_def descriptor_def)
qed

text \<open>
  C9. The claim: with an explicit limit, also \<open>limit = 0\<close>, the driver makes exactly one
  sync call with that limit and never enters the batch loop; the source says the same
  above its guard, "If limit is specified, use it directly". The guard is the truth test
  \<open>if (limit)\<close>, which misses the limit 0: with \<open>limit = 0\<close> and batch size 2 over three
  documents the driver runs the loop, two sync calls with limit 2, and adds 3 documents.
\<close>

theorem zero_limit_enters_batch_loop:
  "meilisearchIndexSyncJob (engine articles_config no_hits)
     (Some (job_of ''articles'' (Some 0) (Some 2))) \<noteq> None \<and>
   run_windows (fst (the (meilisearchIndexSyncJob (engine articles_config no_hits)
                            (Some (job_of ''articles'' (Some 0) (Some 2)))))) =
     [(Some 2, Some 0), (Some 2, Some 2)] \<and>
   snd (the (meilisearchIndexSyncJob (engine articles_config no_hits)
               (Some (job_of ''articles'' (Some 0) (Some 2))))) = Inr (Batched 3 0)"
proof -
  let ?svc = "engine articles_config no_hits"
  have r0: "snd (syncDocumentsStep ?svc (batch_input ''articles'' None 2 0)) =
              Inr \<lparr> documents = [doc ''1'', doc ''2''], added = length [doc ''1'', doc ''2''],
                    deleted = 0 \<rparr>"
    by (rule engine_step [where f = "window_fetcher [doc ''1'', doc ''2'', doc ''3'']"])
       (simp_all add: articles_lookup batch_input_def fetch_options_def window_fetcher_def)
  have r1: "snd (syncDocumentsStep ?svc (batch_input ''articles'' None 2 2)) =
              Inr \<lparr> documents = [doc ''3''], added = length [doc ''3''], deleted = 0 \<rparr>"
    by (rule engine_step [where f = "window_fetcher [doc ''1'', doc ''2'', doc ''3'']"])
       (simp_all add: articles_lookup batch_input_def fetch_options_def window_fetcher_def)
  have "meilisearchIndexSyncJob ?svc (Some (job_of ''articles'' (Some 0) (Some 2))) =
          batch_loop ?svc ''articles'' None 2 0 0 0 []"
    by (simp add: meilisearchIndexSyncJob_def)
  also have "\<dots> = batch_loop ?svc ''articles'' None 2 2 2 0
                     (fst (syncDocumentsWorkflow ?svc (batch_input ''articles'' None 2 0)))"
    using batch_loop_more [OF r0, of 0 0 "[]"] by (simp add: numeral_2_eq_2)
  also have "\<dots> = Some (fst (syncDocumentsWorkflow ?svc (batch_input ''articles'' None 2 0)) @
                          fst (syncDocumentsWorkflow ?svc (batch_input ''articles'' None 2 2)),
                          Inr (Batched 3 0))"
    using batch_loop_last [OF r1, of 2 0
            "fst (syncDocumentsWorkflow ?svc (batch_input ''articles'' None 2 0))"]
    by (simp add: numeral_3_eq_3)
  finally show ?thesis
    by (simp add: batch_input_def run_windows_def)
qed

text \<open>
  On the other inputs the guard does what its comment says: with an index key and a
  limit other than zero, the driver makes exactly one single-index sync call, with that
  limit and the caller's offset, and its outcome is that of this one call.
\<close>

theorem explicit_limit_runs_once:
  assumes key: "jd_indexKey d \<noteq> []"
    and limit: "jd_limit d = Some l"
    and nonzero: "l \<noteq> 0"
  shows "\<exists>calls.
           meilisearchIndexSyncJob svc (Some d) =
             Some (calls,
                   case snd (syncDocumentsStep svc
                               \<lparr> si_indexKey = jd_indexKey d, si_filters = jd_filters d,
                                 si_limit = Some l, si_offset = jd_offset d,
                                 si_language = None \<rparr>) of
                     Inl e \<Rightarrow> Inl e
                   | Inr r \<Rightarrow> Inr (Single r)) \<and>
           workflow_runs calls =
             [\<lparr> si_indexKey = jd_indexKey d, si_filters = jd_filters d, si_limit = Some l,
                si_offset = jd_offset d, si_language = None \<rparr>]"
  using assms
  by (simp add: meilisearchIndexSyncJob_def prod_eq_iff fst_io_bind snd_io_bind io_simps
        split: sum.splits)

theorem explicit_limit_runs_once_witness:
  "\<exists>calls.
     meilisearchIndexSyncJob (engine articles_config no_hits)
        (Some (job_of ''articles'' (Some 2) None)) =
       Some (calls, Inr (Single \<lparr> documents = [doc ''1'', doc ''2''], added = 2, deleted = 0 \<rparr>)) \<and>
     workflow_runs calls =
       [\<lparr> si_indexKey = ''articles'', si_filters = None, si_limit = Some 2, si_offset = None,
          si_language = None \<rparr>]"
proof -
  let ?svc = "engine articles_config no_hits"
  let ?inp = "\<lparr> si_indexKey = ''articles'', si_filters = None, si_limit = Some 2,
                si_offset = None, si_language = None \<rparr>"
  have r: "snd (syncDocumentsStep ?svc ?inp) =
             Inr \<lparr> documents = [doc ''1'', doc ''2''], added = length [doc ''1'', doc ''2''],
                   deleted = 0 \<rparr>"
    by (rule engine_step [where f = "window_fetcher [doc ''1'', doc ''2'', doc ''3'']"])
       (simp_all add: articles_lookup fetch_options_def window_fetcher_def)
  from explicit_limit_runs_once [of "job_of ''articles'' (Some 2) None" 2 ?svc] r
  show ?thesis
    by (simp add: numeral_2_eq_2)
qed

text \<open>
  C10, as stated: the query of the built-in products fetcher has \<open>status = published\<close>
  for every caller-supplied filters object, also one with a \<open>status\<close> key. The caller's
  filters are spread after the default, so a caller's \<open>status\<close> replaces it.
\<close>

theorem caller_status_replaces_published:
  "map query_status
     (graph_queries (fst (fetchDocuments (engine products_config no_hits) ''products''
        \<lparr> fo_filters = Some draft_filters, fo_limit = Some 10,
          fo_offset = Some 0, fo_language = None \<rparr>))) = [Some ''draft'']"
  by (simp add: fetchDocuments_def getDocumentFetcher_def indexConfig_of_def run_fetcher_def
        products_config_def indexTypes_PRODUCTS_def io_call_def products_query_def Let_def
        query_status_def draft_filters_def)

text \<open>
  C10, amended: when the index is enabled, of type products and has no custom fetcher,
  a fetch issues exactly one catalog query; it maps \<open>limit\<close> to \<open>take\<close> and \<open>offset\<close> to
  \<open>skip\<close>, passes every other caller filter through, and has \<open>status = published\<close>
  unless the caller's filters have a \<open>status\<close> key, whose value then replaces it.
\<close>

theorem products_fetcher_query:
  assumes "indexConfig_of (config svc) k = Some c"
    and "ic_enabled c \<noteq> Some False"
    and "ic_fetcher c = None"
    and "ic_type c = Some indexTypes_PRODUCTS"
  shows "graph_queries (fst (fetchDocuments svc k options)) = [products_query (config svc) options] \<and>
         gq_take (products_query (config svc) options) = fo_limit options \<and>
         gq_skip (products_query (config svc) options) = fo_offset options \<and>
         gq_filters (products_query (config svc) options) ''status'' =
           (case fo_filters options of
              None \<Rightarrow> Some ''published''
            | Some f \<Rightarrow> (case f ''status'' of None \<Rightarrow> Some ''published'' | Some v \<Rightarrow> Some v)) \<and>
         (\<forall>key. key \<noteq> ''status'' \<longrightarrow>
            gq_filters (products_query (config svc) options) key =
              (case fo_filters options of None \<Rightarrow> None | Some f \<Rightarrow> f key))"
  using assms
  by (simp add: fetchDocuments_def getDocumentFetcher_def run_fetcher_def io_call_def
        products_query_def Let_def map_add_def split: option.splits)

theorem products_fetcher_query_witness:
  "map (\<lambda>q. (gq_take q, gq_skip q, gq_filters q ''status'', gq_filters q ''handle''))
     (graph_queries (fst (fetchDocuments (engine products_config no_hits) ''products''
        \<lparr> fo_filters = Some [''handle'' \<mapsto> ''shirt''], fo_limit = Some 10,
          fo_offset = Some 20, fo_language = None \<rparr>))) =
   [(Some 10, Some 20, Some ''published'', Some ''shirt'')]"
  using products_fetcher_query
          [of "engine products_config no_hits" "''products''"
              "\<lparr> ic_type = Some ''products'', ic_enabled = None, ic_fields = None,
                 ic_fetcher = None, ic_transformer = None \<rparr>"
              "\<lparr> fo_filters = Some [''handle'' \<mapsto> ''shirt''], fo_limit = Some 10,
                 fo_offset = Some 20, fo_language = None \<rparr>"]
  by (simp add: indexConfig_of_def products_config_def indexTypes_PRODUCTS_def
        products_query_def)

end
